theory Spec2Isabelle
  imports Complex_Main "HOL-Library.Sublist" "HOL-Library.AList"
begin

section \<open>Python values used by pycallblock\<close>

text \<open>
  A Python \<open>bytes\<close> value is a list of 8-bit characters. A Python \<open>str\<close> is represented by
  its UTF-8 encoding, again a list of 8-bit characters: \<open>bytes.decode()\<close> is then the
  identity on well-formed UTF-8 and raises otherwise, and \<open>str.encode()\<close> is the identity.
  Every \<open>str\<close> operation the modelled code uses (\<open>in\<close>, \<open>split\<close>, \<open>strip\<close>, \<open>replace\<close>,
  \<open>removeprefix\<close>, \<open>startswith\<close>, \<open>endswith\<close>, \<open>join\<close>, \<open>re.split\<close>) has an ASCII
  pattern and commutes with that encoding. The two exceptions are \<open>str.upper\<close>, modelled
  on ASCII letters only, and \<open>len\<close>, which counts code points (\<open>py_len\<close>).
\<close>

type_synonym bytes = string
type_synonym str = string

datatype py_error =
    ValueError
  | UnicodeDecodeError
  | IndexError
  | AttributeError
  | ZeroDivisionError

definition CR :: char where "CR = CHR 0x0D"
definition LF :: char where "LF = CHR 0x0A"

text \<open>\<open>DLE = b'\x10'\<close>\<close>

definition DLE :: char where "DLE = CHR 0x10"

definition whitespace :: "char list" where
  "whitespace = [CHR 0x20, CHR 0x09, CHR 0x0A, CHR 0x0D, CHR 0x0B, CHR 0x0C]"

text \<open>\<open>x.strip(chars)\<close>: drop the leading and the trailing characters that are in \<open>chars\<close>.\<close>

definition strip_chars :: "char list \<Rightarrow> string \<Rightarrow> string" where
  "strip_chars chars x =
     rev (dropWhile (\<lambda>c. c \<in> set chars) (rev (dropWhile (\<lambda>c. c \<in> set chars) x)))"

text \<open>\<open>bytes.strip()\<close> with no argument strips ASCII whitespace.\<close>

definition strip :: "bytes \<Rightarrow> bytes" where
  "strip x = strip_chars whitespace x"

definition in_range :: "nat \<Rightarrow> nat \<Rightarrow> char \<Rightarrow> bool" where
  "in_range lo hi c = (lo \<le> of_char c \<and> of_char c \<le> hi)"

definition cont :: "char \<Rightarrow> bool" where
  "cont c = in_range 0x80 0xBF c"

text \<open>Well-formed UTF-8, as the strict decoder of \<open>bytes.decode()\<close> accepts it.\<close>

fun valid_utf8 :: "bytes \<Rightarrow> bool" where
  "valid_utf8 [] = True"
| "valid_utf8 (a # rest) =
     (if in_range 0x00 0x7F a then valid_utf8 rest
      else if in_range 0xC2 0xDF a then
        (case rest of b # r \<Rightarrow> cont b \<and> valid_utf8 r | _ \<Rightarrow> False)
      else if in_range 0xE0 0xEF a then
        (case rest of
           b # c # r \<Rightarrow>
             (if of_char a = (0xE0::nat) then in_range 0xA0 0xBF b
              else if of_char a = (0xED::nat) then in_range 0x80 0x9F b
              else cont b) \<and> cont c \<and> valid_utf8 r
         | _ \<Rightarrow> False)
      else if in_range 0xF0 0xF4 a then
        (case rest of
           b # c # d # r \<Rightarrow>
             (if of_char a = (0xF0::nat) then in_range 0x90 0xBF b
              else if of_char a = (0xF4::nat) then in_range 0x80 0x8F b
              else cont b) \<and> cont c \<and> cont d \<and> valid_utf8 r
         | _ \<Rightarrow> False)
      else False)"

definition decode :: "bytes \<Rightarrow> py_error + str" where
  "decode b = (if valid_utf8 b then Inr b else Inl UnicodeDecodeError)"

text \<open>\<open>len\<close> of a \<open>str\<close>: its code points, the bytes that are not continuation bytes.\<close>

definition py_len :: "str \<Rightarrow> nat" where
  "py_len x = length (filter (\<lambda>c. \<not> cont c) x)"

definition is_crlf :: "char \<Rightarrow> bool" where
  "is_crlf c = (c = CR \<or> c = LF)"

text \<open>
  \<open>re.split("[\r\n]+", text)\<close>: the pieces between the maximal runs of CR and LF; a run at
  either end leaves an empty piece there. The flag says that the previous character
  belonged to a run.
\<close>

fun re_split_from :: "bool \<Rightarrow> str \<Rightarrow> str list" where
  "re_split_from in_run [] = [[]]"
| "re_split_from in_run (c # cs) =
     (if is_crlf c then
        (if in_run then re_split_from True cs else [] # re_split_from True cs)
      else
        (case re_split_from False cs of
           w # ws \<Rightarrow> (c # w) # ws
         | [] \<Rightarrow> [[c]]))"

definition re_split :: "str \<Rightarrow> str list" where
  "re_split text = re_split_from False text"

text \<open>
  \<open>x.split(sep)\<close> for a non-empty separator: cut at the leftmost occurrences of \<open>sep\<close>,
  which do not overlap. \<open>cur\<close> holds the piece being read.
\<close>

function py_split_from :: "str \<Rightarrow> str \<Rightarrow> str \<Rightarrow> str list" where
  "py_split_from sep cur [] = [cur]"
| "py_split_from sep cur (c # cs) =
     (if sep \<noteq> [] \<and> prefix sep (c # cs)
      then cur # py_split_from sep [] (drop (length sep) (c # cs))
      else py_split_from sep (cur @ [c]) cs)"
  by pat_completeness auto
termination
  by (relation "measure (\<lambda>(sep, cur, x). length x)") auto

definition py_split :: "str \<Rightarrow> str \<Rightarrow> str list" where
  "py_split sep x = py_split_from sep [] x"

text \<open>\<open>x.replace(old, new)\<close> for a non-empty \<open>old\<close>.\<close>

function py_replace :: "str \<Rightarrow> str \<Rightarrow> str \<Rightarrow> str" where
  "py_replace old new [] = []"
| "py_replace old new (c # cs) =
     (if old \<noteq> [] \<and> prefix old (c # cs)
      then new @ py_replace old new (drop (length old) (c # cs))
      else c # py_replace old new cs)"
  by pat_completeness auto
termination
  by (relation "measure (\<lambda>(old, new, x). length x)") auto

text \<open>\<open>x.removeprefix(p)\<close>\<close>

definition removeprefix :: "string \<Rightarrow> string \<Rightarrow> string" where
  "removeprefix p x = (if prefix p x then drop (length p) x else x)"

text \<open>\<open>x.removesuffix(p)\<close>\<close>

definition removesuffix :: "string \<Rightarrow> string \<Rightarrow> string" where
  "removesuffix p x = (if suffix p x then take (length x - length p) x else x)"

text \<open>\<open>sep.join(parts)\<close>\<close>

fun join :: "string \<Rightarrow> string list \<Rightarrow> string" where
  "join sep [] = []"
| "join sep [x] = x"
| "join sep (x # y # ys) = x @ sep @ join sep (y # ys)"

text \<open>
  \<open>x.partition(sep)\<close>: the part before the first occurrence of \<open>sep\<close>, \<open>sep\<close>, and the part
  after it; \<open>(x, b'', b'')\<close> when \<open>sep\<close> does not occur (\<open>sep\<close> is not empty).
\<close>

fun partition_from :: "bytes \<Rightarrow> bytes \<Rightarrow> bytes \<Rightarrow> bytes \<times> bytes \<times> bytes" where
  "partition_from sep front [] = (front, [], [])"
| "partition_from sep front (c # cs) =
     (if prefix sep (c # cs) then (front, sep, drop (length sep) (c # cs))
      else partition_from sep (front @ [c]) cs)"

definition partition :: "bytes \<Rightarrow> bytes \<Rightarrow> bytes \<times> bytes \<times> bytes" where
  "partition sep x = partition_from sep [] x"

text \<open>ASCII upper case, standing for \<open>str.upper\<close>.\<close>

definition upper_char :: "char \<Rightarrow> char" where
  "upper_char c = (if in_range 0x61 0x7A c then char_of (of_char c - (0x20::nat)) else c)"

definition upper :: "str \<Rightarrow> str" where
  "upper x = map upper_char x"

text \<open>\<open>str(n)\<close> of a Python int, as an f-string formats it.\<close>

function str_nat :: "nat \<Rightarrow> str" where
  "str_nat n =
     (if n < 10 then [char_of (0x30 + n)]
      else str_nat (n div 10) @ [char_of (0x30 + n mod 10)])"
  by pat_completeness auto
termination
  by (relation "measure id") auto

declare str_nat.simps [simp del]

definition str_int :: "int \<Rightarrow> str" where
  "str_int i = (if i < 0 then CHR ''-'' # str_nat (nat (- i)) else str_nat (nat i))"

section \<open>Enumerations\<close>

datatype ResultCode = OK | CONNECT | RING | NO_CARRIER | ERROR | DIGITAL_LINE_DETECTED

fun ResultCode_value :: "ResultCode \<Rightarrow> str" where
  "ResultCode_value OK = ''OK''"
| "ResultCode_value CONNECT = ''CONNECT''"
| "ResultCode_value RING = ''RING''"
| "ResultCode_value NO_CARRIER = ''NO CARRIER''"
| "ResultCode_value ERROR = ''ERROR''"
| "ResultCode_value DIGITAL_LINE_DETECTED = ''DIGITAL LINE DETECTED''"

definition ResultCode_members :: "ResultCode list" where
  "ResultCode_members = [OK, CONNECT, RING, NO_CARRIER, ERROR, DIGITAL_LINE_DETECTED]"

text \<open>\<open>ResultCode(x)\<close>: the member whose value is \<open>x\<close>, \<open>ValueError\<close> when there is none.\<close>

definition ResultCode_of :: "str \<Rightarrow> py_error + ResultCode" where
  "ResultCode_of x =
     (case find (\<lambda>code. ResultCode_value code = x) ResultCode_members of
        Some code \<Rightarrow> Inr code
      | None \<Rightarrow> Inl ValueError)"

datatype Mode = DATA | FAX_CLASS_1 | FAX_CLASS_1_0 | FAX_CLASS_2 | VOICE

fun Mode_value :: "Mode \<Rightarrow> str" where
  "Mode_value DATA = ''0''"
| "Mode_value FAX_CLASS_1 = ''1''"
| "Mode_value FAX_CLASS_1_0 = ''1.0''"
| "Mode_value FAX_CLASS_2 = ''2''"
| "Mode_value VOICE = ''8''"

datatype State =
  INITIALIZED | WAITING_EVENT | VOICE_COMMAND | VOICE_RECEIVE | VOICE_TRANSMIT | VOICE_DUPLEX

datatype DTMF =
    DTMF_0 | DTMF_1 | DTMF_2 | DTMF_3 | DTMF_4 | DTMF_5 | DTMF_6 | DTMF_7
  | DTMF_8 | DTMF_9 | DTMF_A | DTMF_B | DTMF_C | DTMF_D | DTMF_E | DTMF_F

fun DTMF_value :: "DTMF \<Rightarrow> char" where
  "DTMF_value DTMF_0 = CHR ''0''"
| "DTMF_value DTMF_1 = CHR ''1''"
| "DTMF_value DTMF_2 = CHR ''2''"
| "DTMF_value DTMF_3 = CHR ''3''"
| "DTMF_value DTMF_4 = CHR ''4''"
| "DTMF_value DTMF_5 = CHR ''5''"
| "DTMF_value DTMF_6 = CHR ''6''"
| "DTMF_value DTMF_7 = CHR ''7''"
| "DTMF_value DTMF_8 = CHR ''8''"
| "DTMF_value DTMF_9 = CHR ''9''"
| "DTMF_value DTMF_A = CHR ''A''"
| "DTMF_value DTMF_B = CHR ''B''"
| "DTMF_value DTMF_C = CHR ''C''"
| "DTMF_value DTMF_D = CHR ''D''"
| "DTMF_value DTMF_E = CHR ''*''"
| "DTMF_value DTMF_F = CHR ''#''"

definition DTMF_members :: "DTMF list" where
  "DTMF_members =
     [DTMF_0, DTMF_1, DTMF_2, DTMF_3, DTMF_4, DTMF_5, DTMF_6, DTMF_7,
      DTMF_8, DTMF_9, DTMF_A, DTMF_B, DTMF_C, DTMF_D, DTMF_E, DTMF_F]"

section \<open>Events, calls and command responses\<close>

text \<open>
  \<open>Event._data\<close> is a \<open>str\<close> or a \<open>dict\<close> from \<open>str\<close> to \<open>str\<close>. The dict is an association
  list with distinct keys in insertion order; \<open>dict_[key] = val\<close> is \<open>AList.update\<close>.
\<close>

datatype event_data = Scalar str | Fields "(str \<times> str) list"

record Event =
  ev_timestamp :: nat
  ev_data :: event_data
  ev_raw :: bytes

text \<open>
  \<open>Event(data, bytes_, timestamp=None)\<close>; \<open>now\<close> is what \<open>time.time_ns()\<close> returns.
  \<open>timestamp or time.time_ns()\<close> takes the clock when the timestamp is \<open>None\<close> or 0.
\<close>

definition timestamp_or :: "nat option \<Rightarrow> nat \<Rightarrow> nat" where
  "timestamp_or timestamp now =
     (case timestamp of None \<Rightarrow> now | Some t \<Rightarrow> if t = 0 then now else t)"

definition Event_init :: "event_data \<Rightarrow> bytes \<Rightarrow> nat option \<Rightarrow> nat \<Rightarrow> Event" where
  "Event_init data bytes' timestamp now =
     \<lparr>ev_timestamp = timestamp_or timestamp now, ev_data = data, ev_raw = bytes'\<rparr>"

text \<open>\<open>Modem.RING = DLE + b'R'\<close>, \<open>Modem.BUSY = DLE + b'b'\<close> and the stream terminators.\<close>

definition Modem_RING :: bytes where "Modem_RING = [DLE, CHR ''R'']"
definition Modem_BUSY :: bytes where "Modem_BUSY = [DLE, CHR ''b'']"
definition END_STREAM :: bytes where "END_STREAM = [DLE, CHR 0x03]"
definition END_RECORD :: bytes where "END_RECORD = [DLE, CHR 0x21]"
definition END_DUPLEX :: bytes where "END_DUPLEX = [DLE, CHR 0x5E]"
definition CLPREFIX :: str where "CLPREFIX = ''AT''"

text \<open>
  \<open>Event.is_ring\<close>. \<open>ResultCode(d)\<close> of a dict raises \<open>ValueError\<close> too, and a dict is not
  equal to a \<open>str\<close>.
\<close>

definition is_ring :: "Event \<Rightarrow> bool" where
  "is_ring e =
     (case ev_data e of
        Scalar x \<Rightarrow>
          (case ResultCode_of x of
             Inl err \<Rightarrow> x = Modem_RING
           | Inr rc \<Rightarrow> rc = RING)
      | Fields d \<Rightarrow> False)"

text \<open>
  Python's \<open>key in data\<close>: a substring test when \<open>data\<close> is a \<open>str\<close>, a key test when it is
  a dict.
\<close>

definition py_in :: "str \<Rightarrow> event_data \<Rightarrow> bool" where
  "py_in key data =
     (case data of
        Scalar x \<Rightarrow> sublist key x
      | Fields d \<Rightarrow> map_of d key \<noteq> None)"

definition is_message_event :: "Event \<Rightarrow> bool" where
  "is_message_event e = py_in ''MSG_WAITING'' (ev_data e)"

definition is_call :: "Event \<Rightarrow> bool" where
  "is_call e =
     (py_in ''DATE'' (ev_data e) \<and> py_in ''TIME'' (ev_data e) \<and> \<not> is_message_event e)"

text \<open>
  \<open>Event.is_shielded_code\<close>: a dict of two entries passes \<open>len(...) == 2\<close> and has no
  \<open>startswith\<close>.
\<close>

definition is_shielded_code :: "Event \<Rightarrow> py_error + bool" where
  "is_shielded_code e =
     (case ev_data e of
        Scalar x \<Rightarrow> Inr (py_len x = 2 \<and> prefix [DLE] x)
      | Fields d \<Rightarrow> if length d = 2 then Inl AttributeError else Inr False)"

text \<open>The loop of \<open>Event.from_bytes\<close> over the parts: \<open>key, val = part.split(" = ")\<close>.\<close>

fun fill_dict :: "str list \<Rightarrow> (str \<times> str) list \<Rightarrow> py_error + (str \<times> str) list" where
  "fill_dict [] dict' = Inr dict'"
| "fill_dict (part # parts) dict' =
     (case py_split '' = '' part of
        [key, val] \<Rightarrow> fill_dict parts (AList.update key val dict')
      | _ \<Rightarrow> Inl ValueError)"

definition Event_from_bytes :: "nat \<Rightarrow> bytes \<Rightarrow> py_error + Event" where
  "Event_from_bytes now bytes' =
     (case decode (strip bytes') of
        Inl err \<Rightarrow> Inl err
      | Inr data \<Rightarrow>
          if \<not> sublist '' = '' data then Inr (Event_init (Scalar data) bytes' None now)
          else
            (case fill_dict (re_split data) [] of
               Inl err \<Rightarrow> Inl err
             | Inr dict' \<Rightarrow> Inr (Event_init (Fields dict') bytes' None now)))"

record Call =
  call_timestamp :: nat
  call_number :: "str option"
  call_name :: "str option"

definition Call_init :: "str option \<Rightarrow> str option \<Rightarrow> nat option \<Rightarrow> nat \<Rightarrow> Call" where
  "Call_init number name timestamp now =
     \<lparr>call_timestamp = timestamp_or timestamp now, call_number = number, call_name = name\<rparr>"

text \<open>\<open>Call.from_event\<close>: \<open>event.data.get\<close> exists only on a dict.\<close>

definition Call_from_event :: "nat \<Rightarrow> Event \<Rightarrow> py_error + Call" where
  "Call_from_event now event =
     (case ev_data event of
        Scalar x \<Rightarrow> Inl AttributeError
      | Fields d \<Rightarrow>
          Inr (Call_init (map_of d ''NMBR'') (map_of d ''NAME'') (Some (ev_timestamp event)) now))"

definition is_private :: "Call \<Rightarrow> bool" where
  "is_private c = (call_number c = Some ''P'' \<or> call_number c = Some ''O'')"

record CommandResponse =
  cr_cmd :: str
  cr_data :: "str option"
  cr_result_code :: ResultCode
  cr_raw :: bytes

definition is_ok :: "CommandResponse \<Rightarrow> bool" where
  "is_ok r = (cr_result_code r = OK)"

text \<open>
  The prefix that \<open>CommandResponse.from_bytes\<close> removes from the data:
  \<open>cmd.replace(Modem.CLPREFIX, '').strip("=?") + ": "\<close>.
\<close>

definition extra_prefix :: "str \<Rightarrow> str" where
  "extra_prefix cmd = strip_chars ''=?'' (py_replace CLPREFIX [] cmd) @ '': ''"

text \<open>
  \<open>CommandResponse.from_bytes\<close>. \<open>split.pop(0)\<close> and \<open>split.pop()\<close> raise \<open>IndexError\<close> on an
  empty list, \<open>ResultCode(...)\<close> raises \<open>ValueError\<close> on an unknown code.
\<close>

definition CommandResponse_from_bytes :: "bytes \<Rightarrow> py_error + CommandResponse" where
  "CommandResponse_from_bytes bytes' =
     (case decode (strip bytes') of
        Inl err \<Rightarrow> Inl err
      | Inr text \<Rightarrow>
          (case re_split text of
             [] \<Rightarrow> Inl IndexError
           | cmd # split \<Rightarrow>
               if split = [] then Inl IndexError
               else
                 (case ResultCode_of (last split) of
                    Inl err \<Rightarrow> Inl err
                  | Inr result_code \<Rightarrow>
                      Inr \<lparr>cr_cmd = cmd,
                           cr_data =
                             (if butlast split = [] then None
                              else Some (removeprefix (extra_prefix cmd)
                                           (join [LF] (butlast split)))),
                           cr_result_code = result_code,
                           cr_raw = bytes'\<rparr>)))"

section \<open>util.py and the silence generator\<close>

text \<open>
  What \<open>wave.open(str(wav), "rb")\<close> gives \<open>wav_duration\<close>: the file is missing, the \<open>wave\<close>
  module rejects it, or it is read and \<open>getparams()[2:4]\<close> is (framerate, nframes).
\<close>

datatype wave_open = FileNotFound | WaveError | WaveParams nat nat

text \<open>
  \<open>wav_duration\<close>: \<open>None\<close> when the file cannot be opened, \<open>nframes / framerate\<close> otherwise.
  Python's \<open>/\<close> on two ints is true division and raises \<open>ZeroDivisionError\<close> on a zero
  divisor; the quotient is modelled as a real number.
\<close>

definition wav_duration :: "wave_open \<Rightarrow> py_error + real option" where
  "wav_duration wav =
     (case wav of
        FileNotFound \<Rightarrow> Inr None
      | WaveError \<Rightarrow> Inr None
      | WaveParams fr nf \<Rightarrow>
          if fr = 0 then Inl ZeroDivisionError else Inr (Some (real nf / real fr)))"

text \<open>Python's \<open>int(x)\<close> on a number: truncation towards zero.\<close>

definition py_int :: "real \<Rightarrow> int" where
  "py_int x = (if 0 \<le> x then \<lfloor>x\<rfloor> else \<lceil>x\<rceil>)"

text \<open>
  \<open>silence(seconds=1, framerate=8000)\<close>: \<open>b'\x80' * int(seconds * framerate)\<close>. A bytes
  value times a negative int is empty.
\<close>

definition silence :: "real \<Rightarrow> real \<Rightarrow> bytes" where
  "silence seconds framerate = replicate (nat (py_int (seconds * framerate))) (CHR 0x80)"

definition default_framerate :: real where "default_framerate = 8000"

section \<open>The modem\<close>

text \<open>
  The coroutines that \<open>create_background_task\<close> is given, and a task: \<open>task_id\<close> stands for
  the identity of the \<open>asyncio.Task\<close> object.
\<close>

datatype coro =
    Coro_event_loop
  | Coro_receive real "string option"
  | Coro_transmit real
  | Coro_silence_detection
  | Coro_play_queue_consumer
  | Coro_dtmf_callback DTMF

record task =
  task_id :: nat
  task_coro :: coro
  task_name :: string

text \<open>\<open>Modem._last_dtmf\<close>: \<open>None\<close>, the string \<open>'/'\<close> or a member of \<open>DTMF\<close>.\<close>

datatype last_dtmf_value = No_dtmf | Slash | Tone DTMF

text \<open>
  The attributes of \<open>Modem\<close> that the modelled methods read or write. \<open>reader\<close> holds the
  bytes the device sends that no \<open>read\<close> has returned yet, \<open>writer\<close> the bytes written so far.
  \<open>tasks_created\<close> counts the tasks created, to give each one its identity.
  \<open>_device\<close>, \<open>_baudrate\<close>, \<open>_silence_seconds\<close>, \<open>_supported_modes\<close>, \<open>_write_lock\<close> and
  \<open>_play_queue\<close> are left out, as are the log lines.
\<close>

record Modem =
  s3 :: str
  s4 :: str
  reader :: bytes
  writer :: bytes
  state :: "State option"
  running :: bool
  event_loop :: "task option"
  stop_event :: "str option"
  background_tasks :: "task list"
  silence_attr :: bool
  mode :: "Mode option"
  last_dtmf :: last_dtmf_value
  tasks_created :: nat

definition DEFAULT_S3 :: str where "DEFAULT_S3 = [CR]"
definition DEFAULT_S4 :: str where "DEFAULT_S4 = [LF]"
definition DEFAULT_VGT :: int where "DEFAULT_VGT = 128"
definition DEFAULT_VGR :: int where "DEFAULT_VGR = 128"
definition DEFAULT_MVD :: real where "DEFAULT_MVD = 120"

text \<open>\<open>Modem.__init__\<close>, for a device that will send \<open>input\<close>.\<close>

definition Modem_init :: "bytes \<Rightarrow> Modem" where
  "Modem_init input =
     \<lparr>s3 = DEFAULT_S3, s4 = DEFAULT_S4, reader = input, writer = [],
      state = None, running = False, event_loop = None, stop_event = None,
      background_tasks = [], silence_attr = False, mode = None,
      last_dtmf = No_dtmf, tasks_created = 0\<rparr>"

definition trailer :: "Modem \<Rightarrow> str" where
  "trailer m = s3 m @ s4 m"

text \<open>
  The loop condition of \<open>read_until_result\<close>:
  \<open>any((code.value + self._trailer).encode() in data for code in ResultCode)\<close>.
\<close>

definition has_result :: "str \<Rightarrow> bytes \<Rightarrow> bool" where
  "has_result tr data = list_ex (\<lambda>code. sublist (ResultCode_value code @ tr) data) ResultCode_members"

text \<open>
  \<open>read_until_result\<close>: \<open>self.read(1)\<close> returns the next byte of the device. When the
  device sends nothing more the read never returns; the result is then \<open>None\<close>.
  The result is the data read and the bytes left unread.
\<close>

fun read_until_result_from :: "str \<Rightarrow> bytes \<Rightarrow> bytes \<Rightarrow> (bytes \<times> bytes) option" where
  "read_until_result_from tr data [] = (if has_result tr data then Some (data, []) else None)"
| "read_until_result_from tr data (b # rest) =
     (if has_result tr data then Some (data, b # rest)
      else read_until_result_from tr (data @ [b]) rest)"

definition read_until_result :: "Modem \<Rightarrow> (bytes \<times> Modem) option" where
  "read_until_result m =
     (case read_until_result_from (trailer m) [] (reader m) of
        None \<Rightarrow> None
      | Some (data, rest) \<Rightarrow> Some (data, m\<lparr>reader := rest\<rparr>))"

lemma read_until_result_from_length:
  "read_until_result_from tr data rd = Some (d, rest) \<Longrightarrow>
     length rest \<le> length rd \<and> (\<not> has_result tr data \<longrightarrow> length rest < length rd)"
proof (induction rd arbitrary: data)
  case Nil
  then show ?case by (simp split: if_splits)
next
  case (Cons b rd)
  show ?case
  proof (cases "has_result tr data")
    case True
    with Cons.prems show ?thesis by simp
  next
    case False
    with Cons.prems have "read_until_result_from tr (data @ [b]) rd = Some (d, rest)"
      by simp
    from Cons.IH [OF this] False show ?thesis by simp
  qed
qed

lemma no_result_in_nothing: "\<not> has_result tr []"
  by (simp add: has_result_def ResultCode_members_def)

text \<open>
  The two lines of \<open>send\<close> that wait for the echo of \<open>cmd\<close>:
  \<open>data = (await self.read_until_result()).strip(b';')\<close>, again while \<open>cmd.encode()\<close> is not
  in \<open>data\<close>. The result is \<open>data\<close> and the bytes left unread.
\<close>

function await_echo :: "str \<Rightarrow> bytes \<Rightarrow> bytes \<Rightarrow> (bytes \<times> bytes) option" where
  "await_echo tr cmd rd =
     (case read_until_result_from tr [] rd of
        None \<Rightarrow> None
      | Some (data, rest) \<Rightarrow>
          if sublist cmd (strip_chars '';'' data) then Some (strip_chars '';'' data, rest)
          else await_echo tr cmd rest)"
  by pat_completeness auto
termination
proof (relation "measure (\<lambda>(tr, cmd, rd). length rd)")
  show "wf (measure (\<lambda>(tr, cmd, rd). length rd))" by simp
next
  fix tr cmd rd :: string and x2 :: "bytes \<times> bytes" and data rest :: bytes
  assume "read_until_result_from tr [] rd = Some x2" and "(data, rest) = x2"
  then have "read_until_result_from tr [] rd = Some (data, rest)" by simp
  from read_until_result_from_length [OF this] no_result_in_nothing
  show "((tr, cmd, rest), (tr, cmd, rd)) \<in> measure (\<lambda>(tr, cmd, rd). length rd)"
    by simp
qed

declare await_echo.simps [simp del]

text \<open>\<open>Modem.write\<close>\<close>

definition Modem_write :: "Modem \<Rightarrow> bytes \<Rightarrow> Modem" where
  "Modem_write m data = m\<lparr>writer := writer m @ data\<rparr>"

text \<open>\<open>Modem._commandify\<close>\<close>

definition commandify :: "Modem \<Rightarrow> str \<Rightarrow> str" where
  "commandify m cmd =
     (let cmd1 = upper cmd;
          cmd2 = (if \<not> prefix CLPREFIX cmd1 then CLPREFIX @ cmd1 else cmd1)
      in if \<not> suffix (s3 m) cmd2 then cmd2 @ s3 m else cmd2)"

text \<open>
  The argument of \<open>send\<close>, one command or a list (or tuple) of commands, and its result,
  one response or a list of responses.
\<close>

datatype commands = One str | Many "str list"

datatype responses = Single CommandResponse | Multiple "CommandResponse list"

text \<open>
  The \<open>for cmd in commands\<close> loop of \<open>send\<close>. An exception of \<open>CommandResponse.from_bytes\<close>
  leaves \<open>send\<close>; \<open>None\<close> says that a read never returns.
\<close>

fun send_loop :: "Modem \<Rightarrow> str list \<Rightarrow> ((py_error + CommandResponse list) \<times> Modem) option" where
  "send_loop m [] = Some (Inr [], m)"
| "send_loop m (cmd # cmds) =
     (case await_echo (trailer m) cmd (reader m) of
        None \<Rightarrow> None
      | Some (data, rest) \<Rightarrow>
          (case partition cmd data of
             (extra, echo, response) \<Rightarrow>
               (case CommandResponse_from_bytes (echo @ response) of
                  Inl err \<Rightarrow> Some (Inl err, m\<lparr>reader := rest\<rparr>)
                | Inr res \<Rightarrow>
                    (case send_loop (m\<lparr>reader := rest\<rparr>) cmds of
                       None \<Rightarrow> None
                     | Some (Inl err, m') \<Rightarrow> Some (Inl err, m')
                     | Some (Inr responses, m') \<Rightarrow> Some (Inr (res # responses), m')))))"

text \<open>
  \<open>Modem.send\<close>: \<open>responses if len(responses) > 1 else responses[0]\<close>, and \<open>responses[0]\<close>
  raises \<open>IndexError\<close> for an empty list of commands.
\<close>

definition send :: "Modem \<Rightarrow> commands \<Rightarrow> ((py_error + responses) \<times> Modem) option" where
  "send m cmds =
     (let commands = map (commandify m) (case cmds of One cmd \<Rightarrow> [cmd] | Many l \<Rightarrow> l)
      in case send_loop (Modem_write m (join '';'' commands)) commands of
           None \<Rightarrow> None
         | Some (Inl err, m') \<Rightarrow> Some (Inl err, m')
         | Some (Inr responses, m') \<Rightarrow>
             if 1 < length responses then Some (Inr (Multiple responses), m')
             else
               (case responses of
                  [] \<Rightarrow> Some (Inl IndexError, m')
                | r # rs \<Rightarrow> Some (Inr (Single r), m')))"

text \<open>
  \<open>Modem.set_mode\<close>. \<open>.is_ok\<close> of a list of responses would raise \<open>AttributeError\<close>; \<open>send\<close>
  never returns a list for one command.
\<close>

definition set_mode :: "Modem \<Rightarrow> Mode \<Rightarrow> ((py_error + bool) \<times> Modem) option" where
  "set_mode m md =
     (case send m (One (''+FCLASS='' @ Mode_value md)) of
        None \<Rightarrow> None
      | Some (Inl err, m') \<Rightarrow> Some (Inl err, m')
      | Some (Inr (Multiple rs), m') \<Rightarrow> Some (Inl AttributeError, m')
      | Some (Inr (Single r), m') \<Rightarrow>
          if is_ok r then Some (Inr True, m'\<lparr>mode := Some md\<rparr>)
          else Some (Inr False, m'))"

text \<open>\<open>Modem.set_caller_id\<close>: \<open>int(bool_)\<close> is 1 or 0.\<close>

definition set_caller_id :: "Modem \<Rightarrow> bool \<Rightarrow> ((py_error + bool) \<times> Modem) option" where
  "set_caller_id m b =
     (case send m (One (''AT+VCID='' @ str_int (if b then 1 else 0))) of
        None \<Rightarrow> None
      | Some (Inl err, m') \<Rightarrow> Some (Inl err, m')
      | Some (Inr (Multiple rs), m') \<Rightarrow> Some (Inl AttributeError, m')
      | Some (Inr (Single r), m') \<Rightarrow> Some (Inr (is_ok r), m'))"

section \<open>Background tasks and the event loop supervisor\<close>

text \<open>
  \<open>Modem.create_background_task\<close>: the new task is added to \<open>_background_tasks\<close> and
  returned.
\<close>

definition create_background_task :: "Modem \<Rightarrow> coro \<Rightarrow> string \<Rightarrow> task \<times> Modem" where
  "create_background_task m c name =
     (let t = \<lparr>task_id = tasks_created m, task_coro = c, task_name = name\<rparr>
      in (t, m\<lparr>background_tasks := background_tasks m @ [t],
               tasks_created := Suc (tasks_created m)\<rparr>))"

text \<open>How a task ends: it returns, it is cancelled, or it raises.\<close>

datatype task_outcome = Returned | Cancelled | Raised py_error

text \<open>
  The \<open>done_callback\<close> of \<open>create_background_task\<close>: apart from the log line it discards
  the task from \<open>_background_tasks\<close>.
\<close>

definition task_done_callback :: "Modem \<Rightarrow> task \<Rightarrow> task_outcome \<Rightarrow> Modem" where
  "task_done_callback m t outcome =
     m\<lparr>background_tasks := filter (\<lambda>x. x \<noteq> t) (background_tasks m)\<rparr>"

text \<open>
  \<open>Modem.start_event_loop\<close> and the \<open>done_callback\<close> it adds to the task it creates. The
  callback runs when that task has ended and is handed its outcome:
  \<open>event_loop_task._exception\<close> is not \<open>None\<close> exactly when the task raised.
\<close>

definition start_event_loop :: "Modem \<Rightarrow> Modem" where
  "start_event_loop m =
     (if event_loop m \<noteq> None then m
      else
        (case create_background_task m Coro_event_loop ''event_loop'' of
           (t, m') \<Rightarrow> m'\<lparr>event_loop := Some t\<rparr>))"

definition event_loop_done_callback :: "Modem \<Rightarrow> task_outcome \<Rightarrow> Modem" where
  "event_loop_done_callback m outcome =
     (case outcome of
        Raised err \<Rightarrow> start_event_loop (m\<lparr>event_loop := None\<rparr>)
      | Returned \<Rightarrow> m
      | Cancelled \<Rightarrow> m)"

text \<open>
  The end of the event-loop task \<open>t\<close>: asyncio runs its done callbacks in the order they
  were added, the one of \<open>create_background_task\<close> first.
\<close>

definition event_loop_task_done :: "Modem \<Rightarrow> task \<Rightarrow> task_outcome \<Rightarrow> Modem" where
  "event_loop_task_done m t outcome =
     event_loop_done_callback (task_done_callback m t outcome) outcome"

section \<open>Voice sessions\<close>

text \<open>\<open>DTMF(code)\<close> for a one-character string, \<open>None\<close> when \<open>code\<close> is not a value.\<close>

definition DTMF_of :: "char \<Rightarrow> DTMF option" where
  "DTMF_of code = find (\<lambda>item. DTMF_value item = code) DTMF_members"

text \<open>\<open>Modem._catch_dtmf\<close>\<close>

definition catch_dtmf :: "Modem \<Rightarrow> char \<Rightarrow> Modem" where
  "catch_dtmf m code =
     (if code = CHR ''/'' then m\<lparr>last_dtmf := Slash\<rparr>
      else
        (case (code = CHR ''~'', last_dtmf m) of
           (True, Tone d) \<Rightarrow>
             (snd (create_background_task m (Coro_dtmf_callback d) ''dtmf_callback''))
               \<lparr>last_dtmf := No_dtmf\<rparr>
         | _ \<Rightarrow>
             (case (DTMF_of code, last_dtmf m) of
                (Some d, Slash) \<Rightarrow> m\<lparr>last_dtmf := Tone d\<rparr>
              | _ \<Rightarrow> m\<lparr>last_dtmf := No_dtmf\<rparr>)))"

text \<open>
  \<open>Modem._catch_dsc\<close>, given the byte \<open>matchobj.group(1)\<close>; the result is the replacement.
  The log line evaluates \<open>code.decode()\<close> first, which raises for a byte above \<open>0x7F\<close>.
  What the method has written to the modem before an exception stays written.
\<close>

definition catch_dsc :: "Modem \<Rightarrow> char \<Rightarrow> (py_error + bytes) \<times> Modem" where
  "catch_dsc m code =
     (if \<not> valid_utf8 [code] then (Inl UnicodeDecodeError, m)
      else if [code] = tl Modem_BUSY then (Inr [], m\<lparr>stop_event := Some ''busy''\<rparr>)
      else if code = DLE then (Inr [DLE], m)
      else (Inr [], catch_dtmf m code))"

text \<open>
  \<open>re.sub(DLE + b"(.)", self._catch_dsc, data)\<close>: the matches are taken from left to right
  and do not overlap, and \<open>.\<close> matches every byte but the line feed (the pattern is
  compiled without \<open>re.DOTALL\<close>). Bytes outside a match are copied.
\<close>

fun re_sub_dle :: "Modem \<Rightarrow> bytes \<Rightarrow> (py_error + bytes) \<times> Modem" where
  "re_sub_dle m [] = (Inr [], m)"
| "re_sub_dle m [c] = (Inr [c], m)"
| "re_sub_dle m (c # code # rest) =
     (if c = DLE \<and> code \<noteq> LF then
        (case catch_dsc m code of
           (Inl err, m') \<Rightarrow> (Inl err, m')
         | (Inr repl, m') \<Rightarrow>
             (case re_sub_dle m' rest of
                (Inl err, m'') \<Rightarrow> (Inl err, m'')
              | (Inr out, m'') \<Rightarrow> (Inr (repl @ out), m'')))
      else
        (case re_sub_dle m (code # rest) of
           (Inl err, m') \<Rightarrow> (Inl err, m')
         | (Inr out, m') \<Rightarrow> (Inr (c # out), m')))"

text \<open>A byte as the signed 8-bit sample that \<open>audioop\<close> reads with width 1.\<close>

definition sample :: "char \<Rightarrow> int" where
  "sample c = (if of_char c < (128::nat) then int (of_char c) else int (of_char c) - 256)"

text \<open>
  \<open>audioop.rms(fragment, 1) >= k\<close>. \<open>rms\<close> is 0 for an empty fragment and otherwise the
  integer part of the square root of the mean of the squared samples, which is at least
  \<open>k\<close> exactly when the sum of the squares is at least \<open>k\<^sup>2\<close> times their number.
\<close>

definition rms_at_least :: "bytes \<Rightarrow> nat \<Rightarrow> bool" where
  "rms_at_least fragment k =
     (if fragment = [] then k = 0
      else int (k * k * length fragment) \<le> sum_list (map (\<lambda>c. sample c * sample c) fragment))"


text \<open>
  The stop checks that end an iteration of \<open>_receive\<close> and of \<open>_transmit\<close>; \<open>now\<close> is what
  \<open>time.monotonic()\<close> returns.
\<close>

definition check_stop :: "Modem \<Rightarrow> real \<Rightarrow> real \<Rightarrow> real \<Rightarrow> Modem" where
  "check_stop m now start max_duration =
     (if max_duration \<le> now - start then m\<lparr>stop_event := Some ''timeout''\<rparr>
      else if \<not> running m then m\<lparr>stop_event := Some ''exit''\<rparr>
      else m)"

text \<open>
  One iteration of the \<open>while self._stop_event is None\<close> loop of \<open>_receive\<close>, from the
  line after the reads: \<open>data\<close> is what the reads returned, \<open>audio\<close> the audio so far. The
  result is the new value of \<open>audio\<close>.
\<close>

definition receive_iteration ::
  "Modem \<Rightarrow> bytes \<Rightarrow> bytes \<Rightarrow> real \<Rightarrow> real \<Rightarrow> real \<Rightarrow> (py_error + bytes) \<times> Modem" where
  "receive_iteration m audio data now start max_duration =
     (case re_sub_dle m data of
        (Inl err, m') \<Rightarrow> (Inl err, m')
      | (Inr new_audio, m') \<Rightarrow>
          (Inr (audio @ new_audio),
           check_stop (m'\<lparr>silence_attr := rms_at_least new_audio 126\<rparr>) now start max_duration))"




text \<open>
  The body shared by the three \<open>start_voice_*\<close> methods after their gain commands: the
  start command must answer CONNECT, then the state is set, the stop reason is cleared
  and the tasks are created in the given order.
\<close>

fun create_tasks :: "Modem \<Rightarrow> (coro \<times> string) list \<Rightarrow> Modem" where
  "create_tasks m [] = m"
| "create_tasks m ((c, name) # others) =
     create_tasks (snd (create_background_task m c name)) others"

definition start_session ::
  "Modem \<Rightarrow> str \<Rightarrow> State \<Rightarrow> (coro \<times> string) list \<Rightarrow> ((py_error + bool) \<times> Modem) option" where
  "start_session m start_cmd new_state tasks =
     (case send m (One start_cmd) of
        None \<Rightarrow> None
      | Some (Inl err, m') \<Rightarrow> Some (Inl err, m')
      | Some (Inr (Multiple rs), m') \<Rightarrow> Some (Inl AttributeError, m')
      | Some (Inr (Single r), m') \<Rightarrow>
          if cr_result_code r \<noteq> CONNECT then Some (Inr False, m')
          else
            Some (Inr True,
                  create_tasks (m'\<lparr>state := Some new_state, stop_event := None\<rparr>) tasks))"

text \<open>\<open>Modem.start_voice_receive(wav, max_duration, rx_gain)\<close>\<close>

definition start_voice_receive ::
  "Modem \<Rightarrow> string option \<Rightarrow> real \<Rightarrow> int \<Rightarrow> ((py_error + bool) \<times> Modem) option" where
  "start_voice_receive m wav max_duration rx_gain =
     (if mode m \<noteq> Some VOICE then Some (Inr False, m)
      else
        (case send m (One (''+VGR='' @ str_int rx_gain)) of
           None \<Rightarrow> None
         | Some (Inl err, m') \<Rightarrow> Some (Inl err, m')
         | Some (Inr r, m') \<Rightarrow>
             start_session m' ''+VRX'' VOICE_RECEIVE [(Coro_receive max_duration wav, ''RX'')]))"

text \<open>\<open>Modem.start_voice_duplex(wav, max_duration, tx_gain, rx_gain)\<close>\<close>

definition start_voice_duplex ::
  "Modem \<Rightarrow> string option \<Rightarrow> real \<Rightarrow> int \<Rightarrow> int \<Rightarrow> ((py_error + bool) \<times> Modem) option" where
  "start_voice_duplex m wav max_duration tx_gain rx_gain =
     (if mode m \<noteq> Some VOICE then Some (Inr False, m)
      else
        (case send m (Many [''+VGR='' @ str_int rx_gain, ''+VGT='' @ str_int tx_gain]) of
           None \<Rightarrow> None
         | Some (Inl err, m') \<Rightarrow> Some (Inl err, m')
         | Some (Inr r, m') \<Rightarrow>
             start_session m' ''+VTR'' VOICE_DUPLEX
               [(Coro_receive max_duration wav, ''RX''),
                (Coro_transmit max_duration, ''TX''),
                (Coro_silence_detection, ''SD''),
                (Coro_play_queue_consumer, ''play_queue'')]))"

text \<open>\<open>Modem.start_voice_transmit(max_duration, tx_gain)\<close>\<close>

definition start_voice_transmit ::
  "Modem \<Rightarrow> real \<Rightarrow> int \<Rightarrow> ((py_error + bool) \<times> Modem) option" where
  "start_voice_transmit m max_duration tx_gain =
     (if mode m \<noteq> Some VOICE then Some (Inr False, m)
      else
        (case send m (One (''+VGT='' @ str_int tx_gain)) of
           None \<Rightarrow> None
         | Some (Inl err, m') \<Rightarrow> Some (Inl err, m')
         | Some (Inr r, m') \<Rightarrow>
             start_session m' ''+VTX'' VOICE_TRANSMIT
               [(Coro_receive max_duration None, ''RX''),
                (Coro_transmit max_duration, ''TX''),
                (Coro_play_queue_consumer, ''play_queue'')]))"




section \<open>Theorems\<close>

subsection \<open>Splitting and the field dictionary\<close>

lemma re_split_from_nonempty: "re_split_from f x \<noteq> []"
  by (induction x arbitrary: f) (auto split: list.splits)

lemma py_split_from_nonempty: "py_split_from sep cur x \<noteq> []"
  by (induction sep cur x rule: py_split_from.induct) auto

lemma join_Cons: "ys \<noteq> [] \<Longrightarrow> join sep (x # ys) = x @ sep @ join sep ys"
  by (cases ys) auto

lemma join_py_split_from: "join sep (py_split_from sep cur x) = cur @ x"
proof (induction sep cur x rule: py_split_from.induct)
  case (1 sep cur)
  then show ?case by simp
next
  case (2 sep cur c cs)
  show ?case
  proof (cases "sep \<noteq> [] \<and> prefix sep (c # cs)")
    case True
    then have "sep @ drop (length sep) (c # cs) = c # cs"
      by (metis append_take_drop_id prefix_def append_eq_conv_conj)
    with True 2 show ?thesis
      by (simp add: join_Cons py_split_from_nonempty del: prefix_code)
  next
    case False
    with 2 show ?thesis by auto
  qed
qed

lemma py_split_pair: "py_split sep p = [k, v] \<Longrightarrow> p = k @ sep @ v"
  using join_py_split_from [of sep "[]" p] by (simp add: py_split_def)

lemma fill_dict_dom:
  "fill_dict parts d0 = Inr d \<Longrightarrow> map_of d0 k \<noteq> None \<Longrightarrow> map_of d k \<noteq> None"
proof (induction parts arbitrary: d0)
  case Nil
  then show ?case by simp
next
  case (Cons p ps)
  then show ?case
    by (auto split: list.splits simp: update_conv' )
qed

lemma fill_dict_Cons:
  "fill_dict (q # qs) d0 = Inr d \<Longrightarrow>
     \<exists>key val. py_split '' = '' q = [key, val] \<and> fill_dict qs (AList.update key val d0) = Inr d"
  by (auto split: list.splits)

lemma fill_dict_parts:
  "fill_dict parts d0 = Inr d \<Longrightarrow> p \<in> set parts \<Longrightarrow>
     \<exists>key val. py_split '' = '' p = [key, val] \<and> map_of d key \<noteq> None"
proof (induction parts arbitrary: d0)
  case Nil
  then show ?case by simp
next
  case (Cons q qs)
  from fill_dict_Cons [OF Cons.prems(1)] obtain key val
    where q: "py_split '' = '' q = [key, val]"
      and rest: "fill_dict qs (AList.update key val d0) = Inr d"
    by blast
  show ?case
  proof (cases "p = q")
    case True
    have "map_of (AList.update key val d0) key \<noteq> None"
      by (simp add: update_conv')
    with rest have "map_of d key \<noteq> None"
      by (rule fill_dict_dom)
    with q True show ?thesis by blast
  next
    case False
    with Cons.prems(2) have "p \<in> set qs" by simp
    with rest show ?thesis by (rule Cons.IH)
  qed
qed

lemma fill_dict_values:
  "fill_dict parts d0 = Inr d \<Longrightarrow> map_of d key = Some val \<Longrightarrow>
     map_of d0 key = Some val \<or> (\<exists>p \<in> set parts. py_split '' = '' p = [key, val])"
proof (induction parts arbitrary: d0)
  case Nil
  then show ?case by simp
next
  case (Cons q qs)
  then show ?case
    by (fastforce split: list.splits if_splits simp: update_conv')
qed

lemma py_split_from_no_eq:
  "CHR ''='' \<notin> set x \<Longrightarrow> py_split_from '' = '' cur x = [cur @ x]"
proof (induction x arbitrary: cur)
  case Nil
  then show ?case by simp
next
  case (Cons c cs)
  then have "\<not> prefix '' = '' (c # cs)"
    by (cases cs) auto
  with Cons show ?case by simp
qed

lemma py_split_from_key:
  "CHR ''='' \<notin> set k \<Longrightarrow>
     py_split_from '' = '' cur (k @ '' = '' @ v) = (cur @ k) # py_split_from '' = '' [] v"
proof (induction k arbitrary: cur)
  case Nil
  then show ?case by simp
next
  case (Cons c k)
  then have "\<not> prefix '' = '' (c # k @ '' = '' @ v)"
    by (cases k) auto
  with Cons show ?case by simp
qed

lemma py_split_key_value:
  "CHR ''='' \<notin> set k \<Longrightarrow> CHR ''='' \<notin> set v \<Longrightarrow> py_split '' = '' (k @ '' = '' @ v) = [k, v]"
proof -
  assume k: "CHR ''='' \<notin> set k" and v: "CHR ''='' \<notin> set v"
  have "py_split_from '' = '' [] (k @ '' = '' @ v) = ([] @ k) # py_split_from '' = '' [] v"
    by (rule py_split_from_key [OF k])
  moreover have "py_split_from '' = '' [] v = [[] @ v]"
    by (rule py_split_from_no_eq [OF v])
  ultimately show ?thesis
    unfolding py_split_def by (simp only: append_Nil)
qed

lemma fill_dict_total:
  "\<forall>part \<in> set parts. length (py_split '' = '' part) = 2 \<Longrightarrow> \<exists>d. fill_dict parts d0 = Inr d"
proof (induction parts arbitrary: d0)
  case Nil
  then show ?case by simp
next
  case (Cons p ps)
  then have "length (py_split '' = '' p) = 2" by simp
  then obtain key val where "py_split '' = '' p = [key, val]"
    by (cases "py_split '' = '' p"; simp) (metis length_0_conv length_Suc_conv)
  moreover from Cons have "\<exists>d. fill_dict ps (AList.update key val d0) = Inr d" by simp
  ultimately show ?case by simp
qed

lemma fill_dict_fails:
  "\<exists>part \<in> set parts. length (py_split '' = '' part) \<noteq> 2 \<Longrightarrow> fill_dict parts d0 = Inl ValueError"
proof (induction parts arbitrary: d0)
  case Nil
  then show ?case by simp
next
  case (Cons p ps)
  show ?case
  proof (cases "length (py_split '' = '' p) = 2")
    case False
    then show ?thesis by (auto split: list.splits)
  next
    case True
    then obtain key val where kv: "py_split '' = '' p = [key, val]"
      by (cases "py_split '' = '' p"; simp) (metis length_0_conv length_Suc_conv)
    from Cons.prems True have "\<exists>part \<in> set ps. length (py_split '' = '' part) \<noteq> 2" by auto
    from Cons.IH [OF this] kv show ?thesis by simp
  qed
qed

lemma fill_dict_map_of:
  "fill_dict parts d0 = Inr d \<Longrightarrow>
     map_of d = map_of (rev (map (\<lambda>part. (hd (py_split '' = '' part), last (py_split '' = '' part))) parts) @ d0)"
proof (induction parts arbitrary: d0)
  case Nil
  then show ?case by simp
next
  case (Cons p ps)
  from fill_dict_Cons [OF Cons.prems] obtain key val
    where p: "py_split '' = '' p = [key, val]"
      and rest: "fill_dict ps (AList.update key val d0) = Inr d"
    by blast
  from Cons.IH [OF rest] show ?case
    by (simp add: p update_conv' map_add_def fun_eq_iff split: option.splits)
qed

subsection \<open>Command responses\<close>

lemma ResultCode_of_iff: "ResultCode_of code = Inr rc \<longleftrightarrow> code = ResultCode_value rc"
  by (cases rc) (auto simp: ResultCode_of_def ResultCode_members_def split: option.splits if_splits)

lemma ResultCode_of_error: "ResultCode_of code = Inl err \<Longrightarrow> err = ValueError"
  by (auto simp: ResultCode_of_def split: option.splits)

text \<open>
  C4 (as amended). \<open>CommandResponse.from_bytes\<close> splits the stripped, decoded input on runs
  of CR and LF. The first segment is the command text; the last segment must be the value
  of a \<open>ResultCode\<close>, and an unknown one raises \<open>ValueError\<close>; with no segment after the
  command the call raises too (\<open>IndexError\<close>). The segments in between, joined by a
  newline, are the data, \<open>None\<close> when there are none; from the joined data one leading
  occurrence of the string \<open>extra\<close> is removed when the data begins with it, where \<open>extra\<close>
  is the command text with every occurrence of \<open>"AT"\<close> deleted (not only a leading one),
  then stripped of leading and trailing \<open>=\<close> and \<open>?\<close>, then followed by \<open>": "\<close>. So for the
  command \<open>AT+GMI\<close> it is \<open>"+GMI: "\<close>, and for \<open>AT+CGATT?\<close> it is \<open>"+CGT: "\<close>, so that
  the data \<open>"+CGATT: 1"\<close> of that command stays as it is. For \<open>"ATZ\rOK\r\n"\<close> the command
  is \<open>"ATZ"\<close>, the data is \<open>None\<close> and the result code is OK.
\<close>

theorem C4_from_bytes:
  "(decode (strip b) = Inr text \<longrightarrow> re_split text = cmd # mid @ [code] \<longrightarrow>
      CommandResponse_from_bytes b =
        (case ResultCode_of code of
           Inl err \<Rightarrow> Inl ValueError
         | Inr rc \<Rightarrow>
             Inr \<lparr>cr_cmd = cmd,
                  cr_data = (if mid = [] then None
                             else Some (removeprefix (extra_prefix cmd) (join [LF] mid))),
                  cr_result_code = rc,
                  cr_raw = b\<rparr>))
   \<and> (decode (strip b) = Inr text \<longrightarrow> re_split text = [cmd] \<longrightarrow>
        CommandResponse_from_bytes b = Inl IndexError)
   \<and> (decode (strip b) = Inl err \<longrightarrow> CommandResponse_from_bytes b = Inl err)
   \<and> (ResultCode_of code = Inr rc \<longleftrightarrow> code = ResultCode_value rc)
   \<and> CommandResponse_from_bytes (''ATZ'' @ [CR] @ ''OK'' @ [CR, LF]) =
        Inr \<lparr>cr_cmd = ''ATZ'', cr_data = None, cr_result_code = OK,
             cr_raw = ''ATZ'' @ [CR] @ ''OK'' @ [CR, LF]\<rparr>
   \<and> extra_prefix cmd = strip_chars ''=?'' (py_replace ''AT'' [] cmd) @ '': ''
   \<and> extra_prefix ''AT+GMI'' = ''+GMI: ''
   \<and> extra_prefix ''AT+FCLASS=?'' = ''+FCLASS: ''
   \<and> extra_prefix ''AT+CGATT?'' = ''+CGT: ''
   \<and> CommandResponse_from_bytes (''AT+CGATT?'' @ [CR] @ ''+CGATT: 1'' @ [CR] @ ''OK'' @ [CR, LF]) =
        Inr \<lparr>cr_cmd = ''AT+CGATT?'', cr_data = Some ''+CGATT: 1'', cr_result_code = OK,
             cr_raw = ''AT+CGATT?'' @ [CR] @ ''+CGATT: 1'' @ [CR] @ ''OK'' @ [CR, LF]\<rparr>"
proof -
  have a: "CommandResponse_from_bytes b =
        (case ResultCode_of code of
           Inl err \<Rightarrow> Inl ValueError
         | Inr rc \<Rightarrow>
             Inr \<lparr>cr_cmd = cmd,
                  cr_data = (if mid = [] then None
                             else Some (removeprefix (extra_prefix cmd) (join [LF] mid))),
                  cr_result_code = rc,
                  cr_raw = b\<rparr>)"
    if "decode (strip b) = Inr text" "re_split text = cmd # mid @ [code]"
    using that
    by (auto simp: CommandResponse_from_bytes_def split: sum.splits dest: ResultCode_of_error)
  have b: "CommandResponse_from_bytes b = Inl IndexError"
    if "decode (strip b) = Inr text" "re_split text = [cmd]"
    using that by (simp add: CommandResponse_from_bytes_def)
  have c: "CommandResponse_from_bytes b = Inl err" if "decode (strip b) = Inl err"
    using that by (simp add: CommandResponse_from_bytes_def)
  have d: "CommandResponse_from_bytes (''ATZ'' @ [CR] @ ''OK'' @ [CR, LF]) =
        Inr \<lparr>cr_cmd = ''ATZ'', cr_data = None, cr_result_code = OK,
             cr_raw = ''ATZ'' @ [CR] @ ''OK'' @ [CR, LF]\<rparr>"
    by code_simp
  have e: "extra_prefix cmd = strip_chars ''=?'' (py_replace ''AT'' [] cmd) @ '': ''"
    by (simp add: extra_prefix_def CLPREFIX_def)
  have f: "extra_prefix ''AT+GMI'' = ''+GMI: ''" "extra_prefix ''AT+FCLASS=?'' = ''+FCLASS: ''"
    "extra_prefix ''AT+CGATT?'' = ''+CGT: ''"
    by code_simp+
  have g: "CommandResponse_from_bytes (''AT+CGATT?'' @ [CR] @ ''+CGATT: 1'' @ [CR] @ ''OK'' @ [CR, LF]) =
        Inr \<lparr>cr_cmd = ''AT+CGATT?'', cr_data = Some ''+CGATT: 1'', cr_result_code = OK,
             cr_raw = ''AT+CGATT?'' @ [CR] @ ''+CGATT: 1'' @ [CR] @ ''OK'' @ [CR, LF]\<rparr>"
    by code_simp
  from a b c d e f g ResultCode_of_iff [of code rc] show ?thesis
    by (intro conjI impI) (assumption | blast)+
qed

theorem C4_from_bytes_witness:
  "decode (strip (''AT+FCLASS?'' @ [CR] @ ''8'' @ [CR] @ ''ERROR'' @ [CR, LF]))
     = Inr (''AT+FCLASS?'' @ [CR] @ ''8'' @ [CR] @ ''ERROR'')
   \<and> re_split (''AT+FCLASS?'' @ [CR] @ ''8'' @ [CR] @ ''ERROR'') = ''AT+FCLASS?'' # [''8''] @ [''ERROR'']
   \<and> CommandResponse_from_bytes (''AT+FCLASS?'' @ [CR] @ ''8'' @ [CR] @ ''ERROR'' @ [CR, LF])
     = Inr \<lparr>cr_cmd = ''AT+FCLASS?'', cr_data = Some ''8'', cr_result_code = ERROR,
            cr_raw = ''AT+FCLASS?'' @ [CR] @ ''8'' @ [CR] @ ''ERROR'' @ [CR, LF]\<rparr>"
proof -
  have h1: "decode (strip (''AT+FCLASS?'' @ [CR] @ ''8'' @ [CR] @ ''ERROR'' @ [CR, LF]))
     = Inr (''AT+FCLASS?'' @ [CR] @ ''8'' @ [CR] @ ''ERROR'')"
    by code_simp
  have h2: "re_split (''AT+FCLASS?'' @ [CR] @ ''8'' @ [CR] @ ''ERROR'') = ''AT+FCLASS?'' # [''8''] @ [''ERROR'']"
    by code_simp
  have h3: "ResultCode_of ''ERROR'' = Inr ERROR" by code_simp
  have h4: "removeprefix (extra_prefix ''AT+FCLASS?'') (join [LF] [''8'']) = ''8''" by code_simp
  from C4_from_bytes [THEN conjunct1, rule_format, OF h1 h2]
  show ?thesis using h1 h2 h3 h4 by simp
qed

text \<open>
  C4, as stated, fails: for \<open>"AT+GMI\r+GMI: X\rOK\r\n"\<close> the only segment between the
  command and the result code is \<open>"+GMI: X"\<close>, and the data is \<open>"X"\<close>, not that segment.
\<close>

theorem C4_counterexample:
  "re_split (''AT+GMI'' @ [CR] @ ''+GMI: X'' @ [CR] @ ''OK'') = [''AT+GMI'', ''+GMI: X'', ''OK'']
   \<and> CommandResponse_from_bytes (''AT+GMI'' @ [CR] @ ''+GMI: X'' @ [CR] @ ''OK'' @ [CR, LF]) =
        Inr \<lparr>cr_cmd = ''AT+GMI'', cr_data = Some ''X'', cr_result_code = OK,
             cr_raw = ''AT+GMI'' @ [CR] @ ''+GMI: X'' @ [CR] @ ''OK'' @ [CR, LF]\<rparr>
   \<and> join [LF] [''+GMI: X''] \<noteq> ''X''"
  by code_simp

subsection \<open>Events\<close>

lemma fill_dict_distinct:
  "fill_dict parts d0 = Inr d \<Longrightarrow> distinct (map fst d0) \<Longrightarrow> distinct (map fst d)"
proof (induction parts arbitrary: d0)
  case Nil
  then show ?case by simp
next
  case (Cons q qs)
  from fill_dict_Cons [OF Cons.prems(1)] obtain key val
    where rest: "fill_dict qs (AList.update key val d0) = Inr d"
    by blast
  from Cons.prems(2) have "distinct (map fst (AList.update key val d0))"
    by (rule distinct_update)
  with rest show ?case by (rule Cons.IH)
qed

lemma Event_from_bytes_scalar:
  "decode (strip b) = Inr text \<Longrightarrow> \<not> sublist '' = '' text \<Longrightarrow>
     Event_from_bytes now b = Inr \<lparr>ev_timestamp = now, ev_data = Scalar text, ev_raw = b\<rparr>"
  by (simp add: Event_from_bytes_def Event_init_def timestamp_or_def)

lemma Event_from_bytes_fields:
  "decode (strip b) = Inr text \<Longrightarrow> sublist '' = '' text \<Longrightarrow>
     Event_from_bytes now b =
       (case fill_dict (re_split text) [] of
          Inl err \<Rightarrow> Inl err
        | Inr d \<Rightarrow> Inr \<lparr>ev_timestamp = now, ev_data = Fields d, ev_raw = b\<rparr>)"
  by (simp add: Event_from_bytes_def Event_init_def timestamp_or_def split: sum.splits)

lemma map_of_key_iff: "map_of d key \<noteq> None \<longleftrightarrow> key \<in> fst ` set d"
  by (simp add: map_of_eq_None_iff)

lemma Event_from_bytes_error:
  "decode (strip b) = Inl err \<Longrightarrow> Event_from_bytes now b = Inl err"
  by (simp add: Event_from_bytes_def)

lemma fields_predicates:
  assumes "ev_data e = Fields d"
  shows "is_message_event e = (''MSG_WAITING'' \<in> fst ` set d)"
    and "is_call e = (''DATE'' \<in> fst ` set d \<and> ''TIME'' \<in> fst ` set d
                      \<and> ''MSG_WAITING'' \<notin> fst ` set d)"
  using map_of_key_iff [of d "''MSG_WAITING''"] map_of_key_iff [of d "''DATE''"]
    map_of_key_iff [of d "''TIME''"]
  by (simp_all add: is_call_def is_message_event_def py_in_def assms)

lemma Event_from_bytes_well_formed:
  assumes dec: "decode (strip b) = Inr text" and sep: "sublist '' = '' text"
    and parts: "\<forall>part \<in> set (re_split text). length (py_split '' = '' part) = 2"
  shows "\<exists>d. Event_from_bytes now b = Inr \<lparr>ev_timestamp = now, ev_data = Fields d, ev_raw = b\<rparr>
           \<and> distinct (map fst d)
           \<and> map_of d = map_of (rev (map (\<lambda>part. (hd (py_split '' = '' part),
                                                  last (py_split '' = '' part)))
                                     (re_split text)))
           \<and> (\<forall>part \<in> set (re_split text).
                 \<exists>key val. part = key @ '' = '' @ val \<and> key \<in> fst ` set d)
           \<and> (\<forall>(key, val) \<in> set d. key @ '' = '' @ val \<in> set (re_split text))"
proof -
  from fill_dict_total [OF parts, of "[]"] obtain d
    where d: "fill_dict (re_split text) [] = Inr d" by blast
  have ev: "Event_from_bytes now b = Inr \<lparr>ev_timestamp = now, ev_data = Fields d, ev_raw = b\<rparr>"
    by (simp add: Event_from_bytes_fields [OF dec sep] d)
  have dist: "distinct (map fst d)"
    using fill_dict_distinct [OF d] by simp
  have mp: "map_of d = map_of (rev (map (\<lambda>part. (hd (py_split '' = '' part),
                                                  last (py_split '' = '' part)))
                                     (re_split text)))"
    using fill_dict_map_of [OF d] by simp
  have ps: "\<exists>key val. part = key @ '' = '' @ val \<and> key \<in> fst ` set d"
    if "part \<in> set (re_split text)" for part
    using fill_dict_parts [OF d that] py_split_pair map_of_key_iff by metis
  have vals: "key @ '' = '' @ val \<in> set (re_split text)" if "(key, val) \<in> set d" for key val
  proof -
    from that dist have "map_of d key = Some val" by simp
    from fill_dict_values [OF d this] obtain p
      where "p \<in> set (re_split text)" "py_split '' = '' p = [key, val]" by auto
    then show ?thesis using py_split_pair by metis
  qed
  from ev dist mp ps vals show ?thesis by blast
qed

lemma Event_from_bytes_malformed:
  assumes dec: "decode (strip b) = Inr text" and sep: "sublist '' = '' text"
    and bad: "\<exists>part \<in> set (re_split text). length (py_split '' = '' part) \<noteq> 2"
  shows "Event_from_bytes now b = Inl ValueError"
  by (simp add: Event_from_bytes_fields [OF dec sep] fill_dict_fails [OF bad])

lemma call_example:
  "Event_from_bytes now (''DATE = 0101'' @ [CR] @ ''TIME = 1200'' @ [CR] @ ''NMBR = 5551234'' @ [CR])
       = Inr \<lparr>ev_timestamp = now,
              ev_data = Fields [(''DATE'', ''0101''), (''TIME'', ''1200''), (''NMBR'', ''5551234'')],
              ev_raw = ''DATE = 0101'' @ [CR] @ ''TIME = 1200'' @ [CR] @ ''NMBR = 5551234'' @ [CR]\<rparr>"
proof -
  have 1: "decode (strip (''DATE = 0101'' @ [CR] @ ''TIME = 1200'' @ [CR] @ ''NMBR = 5551234'' @ [CR]))
      = Inr (''DATE = 0101'' @ [CR] @ ''TIME = 1200'' @ [CR] @ ''NMBR = 5551234'')"
    by code_simp
  have 2: "sublist '' = '' (''DATE = 0101'' @ [CR] @ ''TIME = 1200'' @ [CR] @ ''NMBR = 5551234'')"
    by code_simp
  have 3: "fill_dict (re_split (''DATE = 0101'' @ [CR] @ ''TIME = 1200'' @ [CR] @ ''NMBR = 5551234'')) []
      = Inr [(''DATE'', ''0101''), (''TIME'', ''1200''), (''NMBR'', ''5551234'')]"
    by code_simp
  show ?thesis
    by (simp only: Event_from_bytes_fields [OF 1 2] 3 sum.case)
qed

lemma message_example:
  "Event_from_bytes now (''MSG_WAITING = 1'' @ [CR])
       = Inr \<lparr>ev_timestamp = now, ev_data = Fields [(''MSG_WAITING'', ''1'')],
              ev_raw = ''MSG_WAITING = 1'' @ [CR]\<rparr>"
proof -
  have 1: "decode (strip (''MSG_WAITING = 1'' @ [CR])) = Inr ''MSG_WAITING = 1''"
    by code_simp
  have 2: "sublist '' = '' ''MSG_WAITING = 1''"
    by code_simp
  have 3: "fill_dict (re_split ''MSG_WAITING = 1'') [] = Inr [(''MSG_WAITING'', ''1'')]"
    by code_simp
  show ?thesis
    by (simp only: Event_from_bytes_fields [OF 1 2] 3 sum.case)
qed

text \<open>
  C5 (as amended). \<open>Event.from_bytes\<close> yields a bare-scalar event when the stripped,
  decoded text contains no \<open>" = "\<close>. Otherwise the text is cut at the runs of CR and LF, and
  when every part splits at \<open>" = "\<close> into exactly a key and a value (as \<open>KEY = VALUE\<close> does
  when neither has a \<open>=\<close>), the call yields a field map of those pairs, each key once and
  the last value of a repeated key kept; when some part does not, the call raises
  \<open>ValueError\<close> and yields no event. Bytes that are not UTF-8 raise the decoding error. On a
  field map \<open>is_message_event\<close> holds exactly when the key MSG_WAITING is present, and
  \<open>is_call\<close> exactly when DATE and TIME are present and MSG_WAITING is not. The bytes
  \<open>"DATE = 0101\rTIME = 1200\rNMBR = 5551234\r"\<close> give a call (and no ring, no message event)
  whose \<open>Call\<close> has the number \<open>"5551234"\<close>; \<open>"MSG_WAITING = 1\r"\<close> gives a message event
  that is not a call.
\<close>

theorem C5_event_from_bytes:
  "(decode (strip b) = Inr text \<longrightarrow> \<not> sublist '' = '' text \<longrightarrow>
      Event_from_bytes now b = Inr \<lparr>ev_timestamp = now, ev_data = Scalar text, ev_raw = b\<rparr>)
   \<and> (decode (strip b) = Inr text \<longrightarrow> sublist '' = '' text \<longrightarrow>
        (\<forall>part \<in> set (re_split text). length (py_split '' = '' part) = 2) \<longrightarrow>
        (\<exists>d. Event_from_bytes now b = Inr \<lparr>ev_timestamp = now, ev_data = Fields d, ev_raw = b\<rparr>
           \<and> distinct (map fst d)
           \<and> map_of d = map_of (rev (map (\<lambda>part. (hd (py_split '' = '' part),
                                                  last (py_split '' = '' part)))
                                     (re_split text)))
           \<and> (\<forall>part \<in> set (re_split text).
                 \<exists>key val. part = key @ '' = '' @ val \<and> key \<in> fst ` set d)
           \<and> (\<forall>(key, val) \<in> set d. key @ '' = '' @ val \<in> set (re_split text))))
   \<and> (decode (strip b) = Inr text \<longrightarrow> sublist '' = '' text \<longrightarrow>
        (\<exists>part \<in> set (re_split text). length (py_split '' = '' part) \<noteq> 2) \<longrightarrow>
        Event_from_bytes now b = Inl ValueError)
   \<and> (decode (strip b) = Inl err \<longrightarrow> Event_from_bytes now b = Inl err)
   \<and> (CHR ''='' \<notin> set k \<longrightarrow> CHR ''='' \<notin> set v \<longrightarrow> py_split '' = '' (k @ '' = '' @ v) = [k, v])
   \<and> (ev_data e = Fields f \<longrightarrow>
        is_message_event e = (''MSG_WAITING'' \<in> fst ` set f)
        \<and> is_call e = (''DATE'' \<in> fst ` set f \<and> ''TIME'' \<in> fst ` set f
                         \<and> ''MSG_WAITING'' \<notin> fst ` set f))
   \<and> Event_from_bytes now (''DATE = 0101'' @ [CR] @ ''TIME = 1200'' @ [CR] @ ''NMBR = 5551234'' @ [CR])
       = Inr \<lparr>ev_timestamp = now,
              ev_data = Fields [(''DATE'', ''0101''), (''TIME'', ''1200''), (''NMBR'', ''5551234'')],
              ev_raw = ''DATE = 0101'' @ [CR] @ ''TIME = 1200'' @ [CR] @ ''NMBR = 5551234'' @ [CR]\<rparr>
   \<and> (ev_data c = Fields [(''DATE'', ''0101''), (''TIME'', ''1200''), (''NMBR'', ''5551234'')] \<longrightarrow>
        is_call c \<and> \<not> is_message_event c \<and> \<not> is_ring c
        \<and> map_sum id call_number (Call_from_event now c) = Inr (Some ''5551234''))
   \<and> Event_from_bytes now (''MSG_WAITING = 1'' @ [CR])
       = Inr \<lparr>ev_timestamp = now, ev_data = Fields [(''MSG_WAITING'', ''1'')],
              ev_raw = ''MSG_WAITING = 1'' @ [CR]\<rparr>
   \<and> (ev_data m = Fields [(''MSG_WAITING'', ''1'')] \<longrightarrow>
        is_message_event m \<and> \<not> is_call m \<and> \<not> is_ring m)"
proof -
  have cls1: "is_call c \<and> \<not> is_message_event c \<and> \<not> is_ring c
        \<and> map_sum id call_number (Call_from_event now c) = Inr (Some ''5551234'')"
    if "ev_data c = Fields [(''DATE'', ''0101''), (''TIME'', ''1200''), (''NMBR'', ''5551234'')]"
    using that
    by (simp add: is_call_def is_message_event_def py_in_def is_ring_def Call_from_event_def Call_init_def)
  have cls2: "is_message_event m \<and> \<not> is_call m \<and> \<not> is_ring m"
    if "ev_data m = Fields [(''MSG_WAITING'', ''1'')]"
    using that
    by (simp add: is_call_def is_message_event_def py_in_def is_ring_def)
  show ?thesis
    using Event_from_bytes_scalar [of b "text" now]
      Event_from_bytes_well_formed [of b "text" now]
      Event_from_bytes_malformed [of b "text" now]
      Event_from_bytes_error [of b err now]
      py_split_key_value [of k v]
      fields_predicates [of e f]
      call_example [of now] cls1 message_example [of now] cls2
    by blast
qed

theorem C5_event_from_bytes_witness:
  "decode (strip (''DATE = 0101'' @ [CR] @ ''TIME = 1200'' @ [CR] @ ''NMBR = 5551234'' @ [CR]
                  @ ''NAME = BOB'' @ [CR] @ ''NMBR = P'' @ [CR, LF]))
     = Inr (''DATE = 0101'' @ [CR] @ ''TIME = 1200'' @ [CR] @ ''NMBR = 5551234'' @ [CR]
            @ ''NAME = BOB'' @ [CR] @ ''NMBR = P'')
   \<and> sublist '' = '' (''DATE = 0101'' @ [CR] @ ''TIME = 1200'' @ [CR] @ ''NMBR = 5551234'' @ [CR]
            @ ''NAME = BOB'' @ [CR] @ ''NMBR = P'')
   \<and> list_all (\<lambda>part. length (py_split '' = '' part) = 2)
        (re_split (''DATE = 0101'' @ [CR] @ ''TIME = 1200'' @ [CR] @ ''NMBR = 5551234'' @ [CR]
            @ ''NAME = BOB'' @ [CR] @ ''NMBR = P''))
   \<and> Event_from_bytes 7 (''DATE = 0101'' @ [CR] @ ''TIME = 1200'' @ [CR] @ ''NMBR = 5551234'' @ [CR]
                  @ ''NAME = BOB'' @ [CR] @ ''NMBR = P'' @ [CR, LF])
     = Inr \<lparr>ev_timestamp = 7,
            ev_data = Fields [(''DATE'', ''0101''), (''TIME'', ''1200''), (''NMBR'', ''P''),
                              (''NAME'', ''BOB'')],
            ev_raw = ''DATE = 0101'' @ [CR] @ ''TIME = 1200'' @ [CR] @ ''NMBR = 5551234'' @ [CR]
                  @ ''NAME = BOB'' @ [CR] @ ''NMBR = P'' @ [CR, LF]\<rparr>
   \<and> map_of [(''DATE'', ''0101''), (''TIME'', ''1200''), (''NMBR'', ''P''), (''NAME'', ''BOB'')]
     = map_of (rev (map (\<lambda>part. (hd (py_split '' = '' part), last (py_split '' = '' part)))
         (re_split (''DATE = 0101'' @ [CR] @ ''TIME = 1200'' @ [CR] @ ''NMBR = 5551234'' @ [CR]
            @ ''NAME = BOB'' @ [CR] @ ''NMBR = P''))))"
proof -
  define raw where
    "raw = ''DATE = 0101'' @ [CR] @ ''TIME = 1200'' @ [CR] @ ''NMBR = 5551234'' @ [CR]
                  @ ''NAME = BOB'' @ [CR] @ ''NMBR = P'' @ [CR, LF]"
  define decoded where
    "decoded = ''DATE = 0101'' @ [CR] @ ''TIME = 1200'' @ [CR] @ ''NMBR = 5551234'' @ [CR]
            @ ''NAME = BOB'' @ [CR] @ ''NMBR = P''"
  have h1: "decode (strip raw) = Inr decoded"
    unfolding raw_def decoded_def by code_simp
  have h2: "sublist '' = '' decoded"
    unfolding decoded_def by code_simp
  have l: "list_all (\<lambda>part. length (py_split '' = '' part) = 2) (re_split decoded)"
    unfolding decoded_def by code_simp
  then have h3: "\<forall>part \<in> set (re_split decoded). length (py_split '' = '' part) = 2"
    by (simp add: list_all_iff)
  have v: "Event_from_bytes 7 raw
     = Inr \<lparr>ev_timestamp = 7,
            ev_data = Fields [(''DATE'', ''0101''), (''TIME'', ''1200''), (''NMBR'', ''P''),
                              (''NAME'', ''BOB'')],
            ev_raw = raw\<rparr>"
    unfolding raw_def by code_simp
  from C5_event_from_bytes [where now = 7, THEN conjunct2, THEN conjunct1, THEN mp, THEN mp,
      THEN mp, OF h1 h2 h3]
  obtain d where
    "Event_from_bytes 7 raw = Inr \<lparr>ev_timestamp = 7, ev_data = Fields d, ev_raw = raw\<rparr>"
    and "map_of d = map_of (rev (map (\<lambda>part. (hd (py_split '' = '' part),
                                                last (py_split '' = '' part)))
                                   (re_split decoded)))"
    by blast
  with v have mp: "map_of [(''DATE'', ''0101''), (''TIME'', ''1200''), (''NMBR'', ''P''),
                          (''NAME'', ''BOB'')]
     = map_of (rev (map (\<lambda>part. (hd (py_split '' = '' part), last (py_split '' = '' part)))
                      (re_split decoded)))"
    by simp
  from h1 h2 l v mp
  show ?thesis unfolding raw_def decoded_def by blast
qed

text \<open>
  C5, as stated, fails: the text \<open>"A = 1\rjunk"\<close> contains \<open>" = "\<close>, and \<open>from_bytes\<close> raises
  \<open>ValueError\<close> at the part \<open>"junk"\<close> instead of yielding a field map; so does a \<open>RING\<close> line
  read together with the lines of a caller-ID block.
\<close>

theorem C5_counterexample:
  "decode (strip (''A = 1'' @ [CR] @ ''junk'')) = Inr (''A = 1'' @ [CR] @ ''junk'')
   \<and> sublist '' = '' (''A = 1'' @ [CR] @ ''junk'')
   \<and> Event_from_bytes 0 (''A = 1'' @ [CR] @ ''junk'') = Inl ValueError
   \<and> Event_from_bytes 0 (''RING'' @ [CR, LF] @ ''DATE = 0101'' @ [CR, LF] @ ''TIME = 1200'' @ [CR, LF])
       = Inl ValueError"
  by code_simp

text \<open>
  C10. On an event whose data is a bare scalar string, \<open>is_message_event\<close> is true exactly
  when \<open>"MSG_WAITING"\<close> occurs in the string as a substring, and \<open>is_call\<close> exactly when
  \<open>"DATE"\<close> and \<open>"TIME"\<close> both occur as substrings and \<open>is_message_event\<close> is false; and
  \<open>Event.from_bytes\<close> returns such a scalar event whenever the stripped input decodes to a
  text without \<open>" = "\<close>.
\<close>

theorem C10_scalar_event_classification:
  "(ev_data e = Scalar x \<longrightarrow>
      is_message_event e = sublist ''MSG_WAITING'' x
      \<and> is_call e = (sublist ''DATE'' x \<and> sublist ''TIME'' x \<and> \<not> is_message_event e))
   \<and> (decode (strip b) = Inr x \<longrightarrow> \<not> sublist '' = '' x \<longrightarrow>
        Event_from_bytes now b = Inr \<lparr>ev_timestamp = now, ev_data = Scalar x, ev_raw = b\<rparr>)"
  by (simp add: is_message_event_def is_call_def py_in_def Event_from_bytes_scalar)

theorem C10_scalar_event_classification_witness:
  "decode (strip (''--DATE--TIME--'' @ [CR, LF])) = Inr ''--DATE--TIME--''
   \<and> \<not> sublist '' = '' ''--DATE--TIME--''
   \<and> Event_from_bytes 3 (''--DATE--TIME--'' @ [CR, LF])
       = Inr \<lparr>ev_timestamp = 3, ev_data = Scalar ''--DATE--TIME--'', ev_raw = ''--DATE--TIME--'' @ [CR, LF]\<rparr>
   \<and> is_call \<lparr>ev_timestamp = 3, ev_data = Scalar ''--DATE--TIME--'', ev_raw = ''--DATE--TIME--'' @ [CR, LF]\<rparr>
   \<and> \<not> is_message_event \<lparr>ev_timestamp = 3, ev_data = Scalar ''--DATE--TIME--'', ev_raw = ''--DATE--TIME--'' @ [CR, LF]\<rparr>
   \<and> is_message_event \<lparr>ev_timestamp = 3, ev_data = Scalar ''xMSG_WAITINGx'', ev_raw = []\<rparr>"
proof -
  have d: "decode (strip (''--DATE--TIME--'' @ [CR, LF])) = Inr ''--DATE--TIME--''"
    by code_simp
  have s: "\<not> sublist '' = '' ''--DATE--TIME--''"
    by code_simp
  have m: "\<not> sublist ''MSG_WAITING'' ''--DATE--TIME--''" "sublist ''DATE'' ''--DATE--TIME--''"
    "sublist ''TIME'' ''--DATE--TIME--''" "sublist ''MSG_WAITING'' ''xMSG_WAITINGx''"
    by code_simp+
  note r = C10_scalar_event_classification [THEN conjunct2, rule_format, OF d s, of 3]
  note c = C10_scalar_event_classification [THEN conjunct1, rule_format,
      of "\<lparr>ev_timestamp = 3, ev_data = Scalar ''--DATE--TIME--'', ev_raw = ''--DATE--TIME--'' @ [CR, LF]\<rparr>"
         "''--DATE--TIME--''"]
  note c2 = C10_scalar_event_classification [THEN conjunct1, rule_format,
      of "\<lparr>ev_timestamp = 3, ev_data = Scalar ''xMSG_WAITINGx'', ev_raw = []\<rparr>"
         "''xMSG_WAITINGx''"]
  show ?thesis using d s m r c c2 by simp
qed

subsection \<open>What \<open>send\<close> changes\<close>

lemma send_loop_frame:
  "send_loop m cmds = Some (r, m') \<Longrightarrow> m' = m\<lparr>reader := reader m'\<rparr>"
proof (induction cmds arbitrary: m r m')
  case Nil
  then show ?case by simp
next
  case (Cons cmd cmds)
  from Cons.prems obtain data rest where echo: "await_echo (trailer m) cmd (reader m) = Some (data, rest)"
    by (auto split: option.splits)
  obtain extra ech response where part: "partition cmd data = (extra, ech, response)"
    by (cases "partition cmd data")
  show ?case
  proof (cases "CommandResponse_from_bytes (ech @ response)")
    case (Inl err)
    with Cons.prems echo part show ?thesis by auto
  next
    case (Inr res)
    with Cons.prems echo part obtain r' where
      rest: "send_loop (m\<lparr>reader := rest\<rparr>) cmds = Some (r', m')"
      by (auto split: option.splits sum.splits prod.splits)
    from Cons.IH [OF rest] have "m' = m\<lparr>reader := rest\<rparr>\<lparr>reader := reader m'\<rparr>" .
    then show ?thesis by simp
  qed
qed

lemma send_frame:
  "send m cmds = Some (r, m') \<Longrightarrow>
     m' = m\<lparr>writer := writer m @ join '';'' (map (commandify m)
                        (case cmds of One cmd \<Rightarrow> [cmd] | Many l \<Rightarrow> l)),
            reader := reader m'\<rparr>"
proof -
  assume s: "send m cmds = Some (r, m')"
  let ?cs = "map (commandify m) (case cmds of One cmd \<Rightarrow> [cmd] | Many l \<Rightarrow> l)"
  have "\<exists>r'. send_loop (Modem_write m (join '';'' ?cs)) ?cs = Some (r', m')"
  proof (cases "send_loop (Modem_write m (join '';'' ?cs)) ?cs")
    case None
    with s show ?thesis by (simp add: send_def)
  next
    case (Some p)
    obtain r' m1 where p: "p = (r', m1)" by (cases p)
    show ?thesis
    proof (cases r')
      case (Inl err)
      with s Some p show ?thesis by (simp add: send_def)
    next
      case (Inr rs)
      with s Some p have "m1 = m'"
        by (cases rs) (simp_all add: send_def split: if_splits)
      with Some p show ?thesis by simp
    qed
  qed
  then obtain r' where "send_loop (Modem_write m (join '';'' ?cs)) ?cs = Some (r', m')" ..
  from send_loop_frame [OF this]
  have "m' = (Modem_write m (join '';'' ?cs))\<lparr>reader := reader m'\<rparr>" .
  also have "\<dots> = m\<lparr>writer := writer m @ join '';'' ?cs, reader := reader m'\<rparr>"
    by (simp add: Modem_write_def)
  finally show ?thesis .
qed

lemma send_keeps:
  assumes "send m cmds = Some (r, m')"
  shows "mode m' = mode m" and "state m' = state m" and "stop_event m' = stop_event m"
    and "background_tasks m' = background_tasks m" and "event_loop m' = event_loop m"
    and "tasks_created m' = tasks_created m" and "running m' = running m"
    and "s3 m' = s3 m" and "s4 m' = s4 m" and "last_dtmf m' = last_dtmf m"
    and "silence_attr m' = silence_attr m"
proof -
  from send_frame [OF assms] obtain wr rd where "m' = m\<lparr>writer := wr, reader := rd\<rparr>"
    by (rule that)
  then show "mode m' = mode m" and "state m' = state m" and "stop_event m' = stop_event m"
    and "background_tasks m' = background_tasks m" and "event_loop m' = event_loop m"
    and "tasks_created m' = tasks_created m" and "running m' = running m"
    and "s3 m' = s3 m" and "s4 m' = s4 m" and "last_dtmf m' = last_dtmf m"
    and "silence_attr m' = silence_attr m"
    by simp_all
qed

subsection \<open>The order of the responses\<close>

lemma await_echo_sublist:
  "await_echo tr cmd rd = Some (data, rest) \<Longrightarrow> sublist cmd data"
proof (induction tr cmd rd rule: await_echo.induct)
  case (1 tr cmd rd)
  from "1.prems" obtain d r where read: "read_until_result_from tr [] rd = Some (d, r)"
    by (subst (asm) await_echo.simps) (auto split: option.splits)
  show ?case
  proof (cases "sublist cmd (strip_chars '';'' d)")
    case True
    with "1.prems" read show ?thesis
      by (subst (asm) await_echo.simps) simp
  next
    case False
    with "1.prems" read have "await_echo tr cmd r = Some (data, rest)"
      by (subst (asm) await_echo.simps) simp
    with "1.IH" [OF read refl False] show ?thesis by simp
  qed
qed

lemma partition_from_sublist:
  "sublist sep x \<Longrightarrow>
     \<exists>extra response. partition_from sep front x = (front @ extra, sep, response)"
proof (induction x arbitrary: front)
  case Nil
  then show ?case by simp
next
  case (Cons c cs)
  show ?case
  proof (cases "prefix sep (c # cs)")
    case True
    then show ?thesis by simp
  next
    case False
    with Cons.prems have "sublist sep cs"
      by (simp add: sublist_Cons_right)
    from Cons.IH [OF this, of "front @ [c]"] False show ?thesis by auto
  qed
qed

lemma partition_echo:
  "sublist cmd data \<Longrightarrow> partition cmd data = (extra, echo, response) \<Longrightarrow> echo = cmd"
  using partition_from_sublist [of cmd data "[]"] by (auto simp: partition_def)

lemma CommandResponse_from_bytes_raw:
  "CommandResponse_from_bytes b = Inr r \<Longrightarrow> cr_raw r = b"
  by (auto simp: CommandResponse_from_bytes_def split: sum.splits list.splits if_splits)

lemma send_loop_Cons:
  assumes "send_loop m (cmd # cmds) = Some (Inr rs, m')"
  shows "\<exists>data rest extra response res rs'.
           await_echo (trailer m) cmd (reader m) = Some (data, rest)
           \<and> partition cmd data = (extra, cmd, response)
           \<and> CommandResponse_from_bytes (cmd @ response) = Inr res
           \<and> send_loop (m\<lparr>reader := rest\<rparr>) cmds = Some (Inr rs', m')
           \<and> rs = res # rs'"
proof -
  from assms obtain data rest where echo: "await_echo (trailer m) cmd (reader m) = Some (data, rest)"
    by (auto split: option.splits)
  obtain extra ech response where part: "partition cmd data = (extra, ech, response)"
    by (cases "partition cmd data")
  from partition_echo [OF await_echo_sublist [OF echo] part] have ech: "ech = cmd" .
  from assms echo part obtain res where res: "CommandResponse_from_bytes (ech @ response) = Inr res"
    by (cases "CommandResponse_from_bytes (ech @ response)") auto
  from assms echo part res obtain rs' where "send_loop (m\<lparr>reader := rest\<rparr>) cmds = Some (Inr rs', m')"
    and "rs = res # rs'"
    by (auto split: option.splits sum.splits prod.splits)
  with echo part ech res show ?thesis by auto
qed

lemma send_loop_order:
  "send_loop m cmds = Some (Inr rs, m') \<Longrightarrow>
     list_all2 (\<lambda>cmd r. prefix cmd (cr_raw r)) cmds rs"
proof (induction cmds arbitrary: m rs)
  case Nil
  then show ?case by simp
next
  case (Cons cmd cmds)
  from send_loop_Cons [OF Cons.prems] obtain rest response res rs' where
    res: "CommandResponse_from_bytes (cmd @ response) = Inr res"
    and more: "send_loop (m\<lparr>reader := rest\<rparr>) cmds = Some (Inr rs', m')"
    and rs: "rs = res # rs'"
    by blast
  from CommandResponse_from_bytes_raw [OF res] have "prefix cmd (cr_raw res)" by simp
  with Cons.IH [OF more] rs show ?case by simp
qed

lemma send_result:
  assumes "send m cmds = Some (Inr result, m')"
  shows "\<exists>rs. send_loop (Modem_write m (join '';'' (map (commandify m)
                    (case cmds of One cmd \<Rightarrow> [cmd] | Many l \<Rightarrow> l))))
               (map (commandify m) (case cmds of One cmd \<Rightarrow> [cmd] | Many l \<Rightarrow> l))
             = Some (Inr rs, m')
           \<and> result = (if 1 < length rs then Multiple rs else Single (hd rs)) \<and> rs \<noteq> []"
proof -
  let ?cs = "map (commandify m) (case cmds of One cmd \<Rightarrow> [cmd] | Many l \<Rightarrow> l)"
  show ?thesis
  proof (cases "send_loop (Modem_write m (join '';'' ?cs)) ?cs")
    case None
    with assms show ?thesis by (simp add: send_def)
  next
    case (Some p)
    obtain r' m1 where p: "p = (r', m1)" by (cases p)
    show ?thesis
    proof (cases r')
      case (Inl err)
      with assms Some p show ?thesis by (simp add: send_def)
    next
      case (Inr rs)
      with assms Some p show ?thesis
        by (cases rs) (auto simp: send_def split: if_splits)
    qed
  qed
qed

subsection \<open>A device that answers every command\<close>


























subsection \<open>Setting the mode\<close>

lemma send_One_Single:
  assumes "send m (One cmd) = Some (Inr result, m')"
  shows "\<exists>r. result = Single r"
proof -
  from send_result [OF assms] obtain rs where
    loop: "send_loop (Modem_write m (join '';'' [commandify m cmd])) [commandify m cmd]
             = Some (Inr rs, m')"
    and result: "result = (if 1 < length rs then Multiple rs else Single (hd rs))"
    by auto
  from send_loop_order [OF loop] have "length rs = 1"
    by (simp add: list_all2_lengthD [symmetric])
  with result show ?thesis by simp
qed

text \<open>
  C7. \<open>set_mode(mode)\<close> sends \<open>+FCLASS=<value>\<close>; when \<open>send\<close> returns a response, \<open>set_mode\<close>
  returns \<open>True\<close> and stores the requested mode if the result code is OK, and returns
  \<open>False\<close> and leaves the stored mode as it was for every other result code, raising
  nothing. \<open>set_mode\<close> raises only what \<open>send\<close> itself raises. \<open>set_caller_id\<close> returns
  whether the result code of its \<open>AT+VCID=\<close> command is OK.
\<close>

theorem C7_set_mode:
  "(send m (One (''+FCLASS='' @ Mode_value md)) = Some (Inr (Single r), m1) \<longrightarrow>
      set_mode m md
        = Some (Inr (cr_result_code r = OK),
                if cr_result_code r = OK then m1\<lparr>mode := Some md\<rparr> else m1)
      \<and> mode m1 = mode m)
   \<and> (set_mode m md = Some (Inr b, m') \<longrightarrow>
        (\<exists>r m1. send m (One (''+FCLASS='' @ Mode_value md)) = Some (Inr (Single r), m1)
                \<and> b = (cr_result_code r = OK))
        \<and> mode m' = (if b then Some md else mode m))
   \<and> (set_mode m md = Some (Inl err, m')
        \<longleftrightarrow> send m (One (''+FCLASS='' @ Mode_value md)) = Some (Inl err, m'))
   \<and> (set_caller_id m flag = Some (Inr b, m')
        \<longleftrightarrow> (\<exists>r. send m (One (''AT+VCID='' @ (if flag then ''1'' else ''0'')))
                     = Some (Inr (Single r), m')
                 \<and> b = (cr_result_code r = OK)))"
proof -
  let ?c = "One (''+FCLASS='' @ Mode_value md)"
  have a: "set_mode m md
        = Some (Inr (cr_result_code r = OK),
                if cr_result_code r = OK then m1\<lparr>mode := Some md\<rparr> else m1)
      \<and> mode m1 = mode m"
    if s: "send m ?c = Some (Inr (Single r), m1)" for r m1
    using s send_keeps(1) [OF s] by (simp add: set_mode_def is_ok_def)
  have cases: "send m ?c = None \<or> (\<exists>e m1. send m ?c = Some (Inl e, m1))
      \<or> (\<exists>r m1. send m ?c = Some (Inr (Single r), m1))"
  proof (cases "send m ?c")
    case None
    then show ?thesis by simp
  next
    case (Some p)
    obtain res m1 where p: "p = (res, m1)" by (cases p)
    show ?thesis
    proof (cases res)
      case (Inl e)
      with Some p show ?thesis by simp
    next
      case (Inr result)
      with Some p send_One_Single [of m "''+FCLASS='' @ Mode_value md" result m1]
      show ?thesis by auto
    qed
  qed
  have b: "(\<exists>r m1. send m ?c = Some (Inr (Single r), m1) \<and> b = (cr_result_code r = OK))
        \<and> mode m' = (if b then Some md else mode m)"
    if sm: "set_mode m md = Some (Inr b, m')"
  proof -
    from cases sm obtain r m1 where s: "send m ?c = Some (Inr (Single r), m1)"
      by (auto simp: set_mode_def)
    from a [OF s] sm show ?thesis using s by (auto split: if_splits)
  qed
  have c: "set_mode m md = Some (Inl err, m') \<longleftrightarrow> send m ?c = Some (Inl err, m')"
    using cases by (auto simp: set_mode_def split: if_splits)
  have "str_int 1 = ''1''" and "str_int 0 = ''0''"
    by code_simp+
  then have str: "str_int (if flag then 1 else 0) = (if flag then ''1'' else ''0'')"
    by simp
  let ?v = "One (''AT+VCID='' @ (if flag then ''1'' else ''0''))"
  have vcases: "send m ?v = None \<or> (\<exists>e m1. send m ?v = Some (Inl e, m1))
      \<or> (\<exists>r m1. send m ?v = Some (Inr (Single r), m1))"
  proof (cases "send m ?v")
    case None
    then show ?thesis by simp
  next
    case (Some p)
    obtain res m1 where p: "p = (res, m1)" by (cases p)
    show ?thesis
    proof (cases res)
      case (Inl e)
      with Some p show ?thesis by simp
    next
      case (Inr result)
      with Some p send_One_Single [of m "''AT+VCID='' @ (if flag then ''1'' else ''0'')" result m1]
      show ?thesis by auto
    qed
  qed
  have d: "set_caller_id m flag = Some (Inr b, m')
        \<longleftrightarrow> (\<exists>r. send m ?v = Some (Inr (Single r), m') \<and> b = (cr_result_code r = OK))"
    unfolding set_caller_id_def str using vcases by (auto simp: is_ok_def split: if_splits)
  from a b c d show ?thesis by blast
qed

theorem C7_set_mode_witness:
  "send (Modem_init (''AT+FCLASS=8'' @ [CR, CR, LF] @ ''ERROR'' @ [CR, LF])) (One (''+FCLASS='' @ Mode_value VOICE))
     = Some (Inr (Single \<lparr>cr_cmd = ''AT+FCLASS=8'', cr_data = None, cr_result_code = ERROR,
                    cr_raw = ''AT+FCLASS=8'' @ [CR, CR, LF] @ ''ERROR'' @ [CR, LF]\<rparr>),
             (Modem_init [])\<lparr>writer := ''AT+FCLASS=8'' @ [CR]\<rparr>)
   \<and> set_mode (Modem_init (''AT+FCLASS=8'' @ [CR, CR, LF] @ ''ERROR'' @ [CR, LF])) VOICE
     = Some (Inr False, (Modem_init [])\<lparr>writer := ''AT+FCLASS=8'' @ [CR]\<rparr>)
   \<and> send (Modem_init (''AT+FCLASS=8'' @ [CR, CR, LF] @ ''OK'' @ [CR, LF])) (One (''+FCLASS='' @ Mode_value VOICE))
     = Some (Inr (Single \<lparr>cr_cmd = ''AT+FCLASS=8'', cr_data = None, cr_result_code = OK,
                    cr_raw = ''AT+FCLASS=8'' @ [CR, CR, LF] @ ''OK'' @ [CR, LF]\<rparr>),
             (Modem_init [])\<lparr>writer := ''AT+FCLASS=8'' @ [CR]\<rparr>)
   \<and> set_mode (Modem_init (''AT+FCLASS=8'' @ [CR, CR, LF] @ ''OK'' @ [CR, LF])) VOICE
     = Some (Inr True, (Modem_init [])\<lparr>writer := ''AT+FCLASS=8'' @ [CR], mode := Some VOICE\<rparr>)"
proof -
  have e: "send (Modem_init (''AT+FCLASS=8'' @ [CR, CR, LF] @ ''ERROR'' @ [CR, LF])) (One (''+FCLASS='' @ Mode_value VOICE))
     = Some (Inr (Single \<lparr>cr_cmd = ''AT+FCLASS=8'', cr_data = None, cr_result_code = ERROR,
                    cr_raw = ''AT+FCLASS=8'' @ [CR, CR, LF] @ ''ERROR'' @ [CR, LF]\<rparr>),
             (Modem_init [])\<lparr>writer := ''AT+FCLASS=8'' @ [CR]\<rparr>)"
    by code_simp
  have k: "send (Modem_init (''AT+FCLASS=8'' @ [CR, CR, LF] @ ''OK'' @ [CR, LF])) (One (''+FCLASS='' @ Mode_value VOICE))
     = Some (Inr (Single \<lparr>cr_cmd = ''AT+FCLASS=8'', cr_data = None, cr_result_code = OK,
                    cr_raw = ''AT+FCLASS=8'' @ [CR, CR, LF] @ ''OK'' @ [CR, LF]\<rparr>),
             (Modem_init [])\<lparr>writer := ''AT+FCLASS=8'' @ [CR]\<rparr>)"
    by code_simp
  from C7_set_mode [THEN conjunct1, rule_format, OF e] C7_set_mode [THEN conjunct1, rule_format, OF k]
    e k
  show ?thesis by simp
qed

subsection \<open>Starting a voice session\<close>

lemma create_tasks_keeps:
  "state (create_tasks m tasks) = state m"
  "stop_event (create_tasks m tasks) = stop_event m"
  "mode (create_tasks m tasks) = mode m"
  by (induction m tasks rule: create_tasks.induct)
     (simp_all add: create_background_task_def Let_def)

lemma start_session_result:
  assumes "start_session m start_cmd new_state tasks = Some (Inr b, m')"
  shows "mode m' = mode m"
    and "\<not> b \<Longrightarrow> state m' = state m \<and> stop_event m' = stop_event m
                 \<and> background_tasks m' = background_tasks m"
    and "b \<Longrightarrow> state m' = Some new_state \<and> stop_event m' = None"
proof -
  from assms obtain r m1 where s: "send m (One start_cmd) = Some (Inr (Single r), m1)"
    and m': "m' = (if cr_result_code r \<noteq> CONNECT then m1
                  else create_tasks (m1\<lparr>state := Some new_state, stop_event := None\<rparr>) tasks)"
    and b: "b = (cr_result_code r = CONNECT)"
    by (auto simp: start_session_def split: option.splits sum.splits responses.splits if_splits)
  note keep = send_keeps [OF s]
  show "mode m' = mode m"
    using m' keep by (simp add: create_tasks_keeps)
  show "\<not> b \<Longrightarrow> state m' = state m \<and> stop_event m' = stop_event m
                 \<and> background_tasks m' = background_tasks m"
    using m' b keep by simp
  show "b \<Longrightarrow> state m' = Some new_state \<and> stop_event m' = None"
    using m' b by (simp add: create_tasks_keeps)
qed

lemma start_voice_receive_result:
  assumes "start_voice_receive m wav d rg = Some (Inr b, m')"
  shows "\<not> b \<Longrightarrow> state m' = state m \<and> stop_event m' = stop_event m \<and> mode m' = mode m
                 \<and> background_tasks m' = background_tasks m"
    and "b \<Longrightarrow> mode m = Some VOICE \<and> state m' = Some VOICE_RECEIVE \<and> stop_event m' = None"
proof -
  show "\<not> b \<Longrightarrow> state m' = state m \<and> stop_event m' = stop_event m \<and> mode m' = mode m
                 \<and> background_tasks m' = background_tasks m"
  proof (cases "mode m = Some VOICE")
    case False
    with assms show ?thesis by (simp add: start_voice_receive_def)
  next
    case True
    with assms obtain r m1 where s: "send m (One (''+VGR='' @ str_int rg)) = Some (Inr r, m1)"
      and ss: "start_session m1 ''+VRX'' VOICE_RECEIVE [(Coro_receive d wav, ''RX'')] = Some (Inr b, m')"
      by (auto simp: start_voice_receive_def split: option.splits sum.splits)
    assume "\<not> b"
    with start_session_result [OF ss] send_keeps [OF s] show ?thesis by simp
  qed
  show "b \<Longrightarrow> mode m = Some VOICE \<and> state m' = Some VOICE_RECEIVE \<and> stop_event m' = None"
  proof (cases "mode m = Some VOICE")
    case False
    assume b
    with False assms show ?thesis by (simp add: start_voice_receive_def)
  next
    case True
    with assms obtain r m1 where s: "send m (One (''+VGR='' @ str_int rg)) = Some (Inr r, m1)"
      and ss: "start_session m1 ''+VRX'' VOICE_RECEIVE [(Coro_receive d wav, ''RX'')] = Some (Inr b, m')"
      by (auto simp: start_voice_receive_def split: option.splits sum.splits)
    assume b
    with start_session_result [OF ss] True show ?thesis by simp
  qed
qed

lemma start_voice_transmit_result:
  assumes "start_voice_transmit m d tg = Some (Inr b, m')"
  shows "\<not> b \<Longrightarrow> state m' = state m \<and> stop_event m' = stop_event m \<and> mode m' = mode m
                 \<and> background_tasks m' = background_tasks m"
    and "b \<Longrightarrow> mode m = Some VOICE \<and> state m' = Some VOICE_TRANSMIT \<and> stop_event m' = None"
proof -
  show "\<not> b \<Longrightarrow> state m' = state m \<and> stop_event m' = stop_event m \<and> mode m' = mode m
                 \<and> background_tasks m' = background_tasks m"
  proof (cases "mode m = Some VOICE")
    case False
    with assms show ?thesis by (simp add: start_voice_transmit_def)
  next
    case True
    with assms obtain r m1 where s: "send m (One (''+VGT='' @ str_int tg)) = Some (Inr r, m1)"
      and ss: "start_session m1 ''+VTX'' VOICE_TRANSMIT
                 [(Coro_receive d None, ''RX''), (Coro_transmit d, ''TX''),
                  (Coro_play_queue_consumer, ''play_queue'')] = Some (Inr b, m')"
      by (auto simp: start_voice_transmit_def split: option.splits sum.splits)
    assume "\<not> b"
    with start_session_result [OF ss] send_keeps [OF s] show ?thesis by simp
  qed
  show "b \<Longrightarrow> mode m = Some VOICE \<and> state m' = Some VOICE_TRANSMIT \<and> stop_event m' = None"
  proof (cases "mode m = Some VOICE")
    case False
    assume b
    with False assms show ?thesis by (simp add: start_voice_transmit_def)
  next
    case True
    with assms obtain r m1 where s: "send m (One (''+VGT='' @ str_int tg)) = Some (Inr r, m1)"
      and ss: "start_session m1 ''+VTX'' VOICE_TRANSMIT
                 [(Coro_receive d None, ''RX''), (Coro_transmit d, ''TX''),
                  (Coro_play_queue_consumer, ''play_queue'')] = Some (Inr b, m')"
      by (auto simp: start_voice_transmit_def split: option.splits sum.splits)
    assume b
    with start_session_result [OF ss] True show ?thesis by simp
  qed
qed

lemma start_voice_duplex_result:
  assumes "start_voice_duplex m wav d tg rg = Some (Inr b, m')"
  shows "\<not> b \<Longrightarrow> state m' = state m \<and> stop_event m' = stop_event m \<and> mode m' = mode m
                 \<and> background_tasks m' = background_tasks m"
    and "b \<Longrightarrow> mode m = Some VOICE \<and> state m' = Some VOICE_DUPLEX \<and> stop_event m' = None"
proof -
  show "\<not> b \<Longrightarrow> state m' = state m \<and> stop_event m' = stop_event m \<and> mode m' = mode m
                 \<and> background_tasks m' = background_tasks m"
  proof (cases "mode m = Some VOICE")
    case False
    with assms show ?thesis by (simp add: start_voice_duplex_def)
  next
    case True
    with assms obtain r m1 where
      s: "send m (Many [''+VGR='' @ str_int rg, ''+VGT='' @ str_int tg]) = Some (Inr r, m1)"
      and ss: "start_session m1 ''+VTR'' VOICE_DUPLEX
                 [(Coro_receive d wav, ''RX''), (Coro_transmit d, ''TX''),
                  (Coro_silence_detection, ''SD''),
                  (Coro_play_queue_consumer, ''play_queue'')] = Some (Inr b, m')"
      by (auto simp: start_voice_duplex_def split: option.splits sum.splits)
    assume "\<not> b"
    with start_session_result [OF ss] send_keeps [OF s] show ?thesis by simp
  qed
  show "b \<Longrightarrow> mode m = Some VOICE \<and> state m' = Some VOICE_DUPLEX \<and> stop_event m' = None"
  proof (cases "mode m = Some VOICE")
    case False
    assume b
    with False assms show ?thesis by (simp add: start_voice_duplex_def)
  next
    case True
    with assms obtain r m1 where
      s: "send m (Many [''+VGR='' @ str_int rg, ''+VGT='' @ str_int tg]) = Some (Inr r, m1)"
      and ss: "start_session m1 ''+VTR'' VOICE_DUPLEX
                 [(Coro_receive d wav, ''RX''), (Coro_transmit d, ''TX''),
                  (Coro_silence_detection, ''SD''),
                  (Coro_play_queue_consumer, ''play_queue'')] = Some (Inr b, m')"
      by (auto simp: start_voice_duplex_def split: option.splits sum.splits)
    assume b
    with start_session_result [OF ss] True show ?thesis by simp
  qed
qed

lemma commandify_s3: "s3 m' = s3 m \<Longrightarrow> commandify m' cmd = commandify m cmd"
  by (simp add: commandify_def Let_def)

lemma start_session_run:
  "send m (One cmd) = Some (Inr (Single r), m') \<Longrightarrow>
     start_session m cmd new_state tasks
       = (if cr_result_code r = CONNECT
          then Some (Inr True, create_tasks (m'\<lparr>state := Some new_state, stop_event := None\<rparr>) tasks)
          else Some (Inr False, m'))"
  by (simp add: start_session_def)

lemma start_session_sent:
  assumes "start_session m cmd new_state tasks = Some (Inr b, m')"
  shows "\<exists>r m1. send m (One cmd) = Some (Inr (Single r), m1) \<and> b = (cr_result_code r = CONNECT)"
proof (cases "send m (One cmd)")
  case None
  with assms show ?thesis by (simp add: start_session_def)
next
  case (Some p)
  obtain res m1 where p: "p = (res, m1)" by (cases p)
  show ?thesis
  proof (cases res)
    case (Inl e)
    with assms Some p show ?thesis by (simp add: start_session_def)
  next
    case (Inr result)
    with Some p send_One_Single [of m cmd result m1] obtain r where "result = Single r" by auto
    with assms Some p Inr show ?thesis
      by (auto simp: start_session_def split: if_splits)
  qed
qed

lemma two_sends_writer:
  assumes "send m c1 = Some (r1, m1)" and "send m1 (One cmd) = Some (r2, m2)"
  shows "writer m2 = writer m
           @ join '';'' (map (commandify m) (case c1 of One c \<Rightarrow> [c] | Many l \<Rightarrow> l))
           @ commandify m cmd"
proof -
  from send_frame [OF assms(1)] obtain rd where
    m1: "m1 = m\<lparr>writer := writer m @ join '';'' (map (commandify m)
                        (case c1 of One c \<Rightarrow> [c] | Many l \<Rightarrow> l)), reader := rd\<rparr>"
    by (rule that)
  from send_frame [OF assms(2)] obtain w rd2 where
    "m2 = m1\<lparr>writer := w, reader := rd2\<rparr>" and "w = writer m1 @ commandify m1 cmd"
    by (rule that) simp
  then have "writer m2 = writer m1 @ commandify m1 cmd" by simp
  moreover have "commandify m1 cmd = commandify m cmd"
    by (rule commandify_s3) (simp add: m1)
  ultimately show ?thesis by (simp add: m1)
qed

lemma start_voice_receive_run:
  assumes "mode m = Some VOICE"
    and "send m (One (''+VGR='' @ str_int rg)) = Some (Inr r1, m1)"
    and "send m1 (One ''+VRX'') = Some (Inr (Single r2), m2)"
  shows "start_voice_receive m wav d rg
           = (if cr_result_code r2 = CONNECT
              then Some (Inr True,
                         create_tasks (m2\<lparr>state := Some VOICE_RECEIVE, stop_event := None\<rparr>)
                           [(Coro_receive d wav, ''RX'')])
              else Some (Inr False, m2))"
    and "writer m2 = writer m @ commandify m (''+VGR='' @ str_int rg) @ commandify m ''+VRX''"
proof -
  show "start_voice_receive m wav d rg
           = (if cr_result_code r2 = CONNECT
              then Some (Inr True,
                         create_tasks (m2\<lparr>state := Some VOICE_RECEIVE, stop_event := None\<rparr>)
                           [(Coro_receive d wav, ''RX'')])
              else Some (Inr False, m2))"
    unfolding start_voice_receive_def using assms(1,2) start_session_run [OF assms(3)]
    by simp
  show "writer m2 = writer m @ commandify m (''+VGR='' @ str_int rg) @ commandify m ''+VRX''"
    using two_sends_writer [OF assms(2,3)] by simp
qed

lemma start_voice_transmit_run:
  assumes "mode m = Some VOICE"
    and "send m (One (''+VGT='' @ str_int tg)) = Some (Inr r1, m1)"
    and "send m1 (One ''+VTX'') = Some (Inr (Single r2), m2)"
  shows "start_voice_transmit m d tg
           = (if cr_result_code r2 = CONNECT
              then Some (Inr True,
                         create_tasks (m2\<lparr>state := Some VOICE_TRANSMIT, stop_event := None\<rparr>)
                           [(Coro_receive d None, ''RX''), (Coro_transmit d, ''TX''),
                            (Coro_play_queue_consumer, ''play_queue'')])
              else Some (Inr False, m2))"
    and "writer m2 = writer m @ commandify m (''+VGT='' @ str_int tg) @ commandify m ''+VTX''"
proof -
  show "start_voice_transmit m d tg
           = (if cr_result_code r2 = CONNECT
              then Some (Inr True,
                         create_tasks (m2\<lparr>state := Some VOICE_TRANSMIT, stop_event := None\<rparr>)
                           [(Coro_receive d None, ''RX''), (Coro_transmit d, ''TX''),
                            (Coro_play_queue_consumer, ''play_queue'')])
              else Some (Inr False, m2))"
    unfolding start_voice_transmit_def using assms(1,2) start_session_run [OF assms(3)]
    by simp
  show "writer m2 = writer m @ commandify m (''+VGT='' @ str_int tg) @ commandify m ''+VTX''"
    using two_sends_writer [OF assms(2,3)] by simp
qed

lemma start_voice_duplex_run:
  assumes "mode m = Some VOICE"
    and "send m (Many [''+VGR='' @ str_int rg, ''+VGT='' @ str_int tg]) = Some (Inr r1, m1)"
    and "send m1 (One ''+VTR'') = Some (Inr (Single r2), m2)"
  shows "start_voice_duplex m wav d tg rg
           = (if cr_result_code r2 = CONNECT
              then Some (Inr True,
                         create_tasks (m2\<lparr>state := Some VOICE_DUPLEX, stop_event := None\<rparr>)
                           [(Coro_receive d wav, ''RX''), (Coro_transmit d, ''TX''),
                            (Coro_silence_detection, ''SD''),
                            (Coro_play_queue_consumer, ''play_queue'')])
              else Some (Inr False, m2))"
    and "writer m2 = writer m @ commandify m (''+VGR='' @ str_int rg) @ '';''
                       @ commandify m (''+VGT='' @ str_int tg) @ commandify m ''+VTR''"
proof -
  show "start_voice_duplex m wav d tg rg
           = (if cr_result_code r2 = CONNECT
              then Some (Inr True,
                         create_tasks (m2\<lparr>state := Some VOICE_DUPLEX, stop_event := None\<rparr>)
                           [(Coro_receive d wav, ''RX''), (Coro_transmit d, ''TX''),
                            (Coro_silence_detection, ''SD''),
                            (Coro_play_queue_consumer, ''play_queue'')])
              else Some (Inr False, m2))"
    unfolding start_voice_duplex_def using assms(1,2) start_session_run [OF assms(3)]
    by simp
  show "writer m2 = writer m @ commandify m (''+VGR='' @ str_int rg) @ '';''
                       @ commandify m (''+VGT='' @ str_int tg) @ commandify m ''+VTR''"
    using two_sends_writer [OF assms(2,3)] by simp
qed

lemma start_voice_receive_sent:
  assumes "start_voice_receive m wav d rg = Some (Inr b, m')" and "mode m = Some VOICE"
  shows "\<exists>r1 m1 r2 m2. send m (One (''+VGR='' @ str_int rg)) = Some (Inr r1, m1)
           \<and> send m1 (One ''+VRX'') = Some (Inr (Single r2), m2)
           \<and> b = (cr_result_code r2 = CONNECT)"
proof -
  from assms obtain r1 m1 where s: "send m (One (''+VGR='' @ str_int rg)) = Some (Inr r1, m1)"
    and ss: "start_session m1 ''+VRX'' VOICE_RECEIVE [(Coro_receive d wav, ''RX'')] = Some (Inr b, m')"
    by (auto simp: start_voice_receive_def split: option.splits sum.splits)
  from start_session_sent [OF ss] s show ?thesis by blast
qed

lemma start_voice_transmit_sent:
  assumes "start_voice_transmit m d tg = Some (Inr b, m')" and "mode m = Some VOICE"
  shows "\<exists>r1 m1 r2 m2. send m (One (''+VGT='' @ str_int tg)) = Some (Inr r1, m1)
           \<and> send m1 (One ''+VTX'') = Some (Inr (Single r2), m2)
           \<and> b = (cr_result_code r2 = CONNECT)"
proof -
  from assms obtain r1 m1 where s: "send m (One (''+VGT='' @ str_int tg)) = Some (Inr r1, m1)"
    and ss: "start_session m1 ''+VTX'' VOICE_TRANSMIT
               [(Coro_receive d None, ''RX''), (Coro_transmit d, ''TX''),
                (Coro_play_queue_consumer, ''play_queue'')] = Some (Inr b, m')"
    by (auto simp: start_voice_transmit_def split: option.splits sum.splits)
  from start_session_sent [OF ss] s show ?thesis by blast
qed

lemma start_voice_duplex_sent:
  assumes "start_voice_duplex m wav d tg rg = Some (Inr b, m')" and "mode m = Some VOICE"
  shows "\<exists>r1 m1 r2 m2.
           send m (Many [''+VGR='' @ str_int rg, ''+VGT='' @ str_int tg]) = Some (Inr r1, m1)
           \<and> send m1 (One ''+VTR'') = Some (Inr (Single r2), m2)
           \<and> b = (cr_result_code r2 = CONNECT)"
proof -
  from assms obtain r1 m1 where
    s: "send m (Many [''+VGR='' @ str_int rg, ''+VGT='' @ str_int tg]) = Some (Inr r1, m1)"
    and ss: "start_session m1 ''+VTR'' VOICE_DUPLEX
               [(Coro_receive d wav, ''RX''), (Coro_transmit d, ''TX''),
                (Coro_silence_detection, ''SD''),
                (Coro_play_queue_consumer, ''play_queue'')] = Some (Inr b, m')"
    by (auto simp: start_voice_duplex_def split: option.splits sum.splits)
  from start_session_sent [OF ss] s show ?thesis by blast
qed

text \<open>
  C2 (as amended). A call of \<open>start_voice_receive\<close>, \<open>start_voice_transmit\<close> or
  \<open>start_voice_duplex\<close> made while the mode is not VOICE returns \<open>False\<close> and leaves the modem
  as it is, nothing being sent. Whenever one of them returns \<open>False\<close>, the state, the stop
  reason, the mode and the background tasks are unchanged. The current state is not
  looked at. In mode VOICE the call sends its gain command (\<open>+VGR\<close>; \<open>+VGT\<close>; for duplex both,
  joined by \<open>;\<close> in one write) and then its start command (\<open>+VRX\<close>, \<open>+VTX\<close>, \<open>+VTR\<close>), so that
  the bytes written are those commands in that order; when both sends return their
  responses, the call returns \<open>True\<close> if the start command is answered CONNECT, having set
  the new state, cleared the stop reason and created its tasks, and \<open>False\<close> otherwise,
  having changed nothing but what the sends change. Conversely a call that returns a
  Boolean in mode VOICE has made both sends, and the Boolean says whether the result code
  of the start command is CONNECT.
\<close>

theorem C2_start_voice:
  "(mode m \<noteq> Some VOICE \<longrightarrow>
      start_voice_receive m wav d rg = Some (Inr False, m)
      \<and> start_voice_transmit m d tg = Some (Inr False, m)
      \<and> start_voice_duplex m wav d tg rg = Some (Inr False, m))
   \<and> (start_voice_receive m wav d rg = Some (Inr False, m')
        \<or> start_voice_transmit m d tg = Some (Inr False, m')
        \<or> start_voice_duplex m wav d tg rg = Some (Inr False, m') \<longrightarrow>
        state m' = state m \<and> stop_event m' = stop_event m \<and> mode m' = mode m
        \<and> background_tasks m' = background_tasks m)
   \<and> (start_voice_receive m wav d rg = Some (Inr True, m') \<longrightarrow>
        mode m = Some VOICE \<and> state m' = Some VOICE_RECEIVE \<and> stop_event m' = None)
   \<and> (start_voice_transmit m d tg = Some (Inr True, m') \<longrightarrow>
        mode m = Some VOICE \<and> state m' = Some VOICE_TRANSMIT \<and> stop_event m' = None)
   \<and> (start_voice_duplex m wav d tg rg = Some (Inr True, m') \<longrightarrow>
        mode m = Some VOICE \<and> state m' = Some VOICE_DUPLEX \<and> stop_event m' = None)
   \<and> (mode m = Some VOICE \<longrightarrow>
        send m (One (''+VGR='' @ str_int rg)) = Some (Inr r1, m1) \<longrightarrow>
        send m1 (One ''+VRX'') = Some (Inr (Single r2), m2) \<longrightarrow>
        start_voice_receive m wav d rg
          = (if cr_result_code r2 = CONNECT
             then Some (Inr True,
                        create_tasks (m2\<lparr>state := Some VOICE_RECEIVE, stop_event := None\<rparr>)
                          [(Coro_receive d wav, ''RX'')])
             else Some (Inr False, m2))
        \<and> writer m2 = writer m @ commandify m (''+VGR='' @ str_int rg) @ commandify m ''+VRX'')
   \<and> (mode m = Some VOICE \<longrightarrow>
        send m (One (''+VGT='' @ str_int tg)) = Some (Inr r1, m1) \<longrightarrow>
        send m1 (One ''+VTX'') = Some (Inr (Single r2), m2) \<longrightarrow>
        start_voice_transmit m d tg
          = (if cr_result_code r2 = CONNECT
             then Some (Inr True,
                        create_tasks (m2\<lparr>state := Some VOICE_TRANSMIT, stop_event := None\<rparr>)
                          [(Coro_receive d None, ''RX''), (Coro_transmit d, ''TX''),
                           (Coro_play_queue_consumer, ''play_queue'')])
             else Some (Inr False, m2))
        \<and> writer m2 = writer m @ commandify m (''+VGT='' @ str_int tg) @ commandify m ''+VTX'')
   \<and> (mode m = Some VOICE \<longrightarrow>
        send m (Many [''+VGR='' @ str_int rg, ''+VGT='' @ str_int tg]) = Some (Inr r1, m1) \<longrightarrow>
        send m1 (One ''+VTR'') = Some (Inr (Single r2), m2) \<longrightarrow>
        start_voice_duplex m wav d tg rg
          = (if cr_result_code r2 = CONNECT
             then Some (Inr True,
                        create_tasks (m2\<lparr>state := Some VOICE_DUPLEX, stop_event := None\<rparr>)
                          [(Coro_receive d wav, ''RX''), (Coro_transmit d, ''TX''),
                           (Coro_silence_detection, ''SD''),
                           (Coro_play_queue_consumer, ''play_queue'')])
             else Some (Inr False, m2))
        \<and> writer m2 = writer m @ commandify m (''+VGR='' @ str_int rg) @ '';''
                         @ commandify m (''+VGT='' @ str_int tg) @ commandify m ''+VTR'')
   \<and> (mode m = Some VOICE \<longrightarrow> start_voice_receive m wav d rg = Some (Inr b, m') \<longrightarrow>
        (\<exists>r1 m1 r2 m2. send m (One (''+VGR='' @ str_int rg)) = Some (Inr r1, m1)
           \<and> send m1 (One ''+VRX'') = Some (Inr (Single r2), m2)
           \<and> b = (cr_result_code r2 = CONNECT)))
   \<and> (mode m = Some VOICE \<longrightarrow> start_voice_transmit m d tg = Some (Inr b, m') \<longrightarrow>
        (\<exists>r1 m1 r2 m2. send m (One (''+VGT='' @ str_int tg)) = Some (Inr r1, m1)
           \<and> send m1 (One ''+VTX'') = Some (Inr (Single r2), m2)
           \<and> b = (cr_result_code r2 = CONNECT)))
   \<and> (mode m = Some VOICE \<longrightarrow> start_voice_duplex m wav d tg rg = Some (Inr b, m') \<longrightarrow>
        (\<exists>r1 m1 r2 m2.
           send m (Many [''+VGR='' @ str_int rg, ''+VGT='' @ str_int tg]) = Some (Inr r1, m1)
           \<and> send m1 (One ''+VTR'') = Some (Inr (Single r2), m2)
           \<and> b = (cr_result_code r2 = CONNECT)))"
proof -
  have a: "start_voice_receive m wav d rg = Some (Inr False, m)
      \<and> start_voice_transmit m d tg = Some (Inr False, m)
      \<and> start_voice_duplex m wav d tg rg = Some (Inr False, m)" if "mode m \<noteq> Some VOICE"
    using that by (simp add: start_voice_receive_def start_voice_transmit_def start_voice_duplex_def)
  have old: "(start_voice_receive m wav d rg = Some (Inr False, m')
        \<or> start_voice_transmit m d tg = Some (Inr False, m')
        \<or> start_voice_duplex m wav d tg rg = Some (Inr False, m') \<longrightarrow>
        state m' = state m \<and> stop_event m' = stop_event m \<and> mode m' = mode m
        \<and> background_tasks m' = background_tasks m)
   \<and> (start_voice_receive m wav d rg = Some (Inr True, m') \<longrightarrow>
        mode m = Some VOICE \<and> state m' = Some VOICE_RECEIVE \<and> stop_event m' = None)
   \<and> (start_voice_transmit m d tg = Some (Inr True, m') \<longrightarrow>
        mode m = Some VOICE \<and> state m' = Some VOICE_TRANSMIT \<and> stop_event m' = None)
   \<and> (start_voice_duplex m wav d tg rg = Some (Inr True, m') \<longrightarrow>
        mode m = Some VOICE \<and> state m' = Some VOICE_DUPLEX \<and> stop_event m' = None)"
    using start_voice_receive_result [of m wav d rg _ m'] start_voice_transmit_result [of m d tg _ m']
      start_voice_duplex_result [of m wav d tg rg _ m']
    by blast
  have rx: "start_voice_receive m wav d rg
          = (if cr_result_code r2 = CONNECT
             then Some (Inr True,
                        create_tasks (m2\<lparr>state := Some VOICE_RECEIVE, stop_event := None\<rparr>)
                          [(Coro_receive d wav, ''RX'')])
             else Some (Inr False, m2))
        \<and> writer m2 = writer m @ commandify m (''+VGR='' @ str_int rg) @ commandify m ''+VRX''"
    if "mode m = Some VOICE" "send m (One (''+VGR='' @ str_int rg)) = Some (Inr r1, m1)"
      "send m1 (One ''+VRX'') = Some (Inr (Single r2), m2)"
    using start_voice_receive_run [OF that] by simp
  have tx: "start_voice_transmit m d tg
          = (if cr_result_code r2 = CONNECT
             then Some (Inr True,
                        create_tasks (m2\<lparr>state := Some VOICE_TRANSMIT, stop_event := None\<rparr>)
                          [(Coro_receive d None, ''RX''), (Coro_transmit d, ''TX''),
                           (Coro_play_queue_consumer, ''play_queue'')])
             else Some (Inr False, m2))
        \<and> writer m2 = writer m @ commandify m (''+VGT='' @ str_int tg) @ commandify m ''+VTX''"
    if "mode m = Some VOICE" "send m (One (''+VGT='' @ str_int tg)) = Some (Inr r1, m1)"
      "send m1 (One ''+VTX'') = Some (Inr (Single r2), m2)"
    using start_voice_transmit_run [OF that] by simp
  have dx: "start_voice_duplex m wav d tg rg
          = (if cr_result_code r2 = CONNECT
             then Some (Inr True,
                        create_tasks (m2\<lparr>state := Some VOICE_DUPLEX, stop_event := None\<rparr>)
                          [(Coro_receive d wav, ''RX''), (Coro_transmit d, ''TX''),
                           (Coro_silence_detection, ''SD''),
                           (Coro_play_queue_consumer, ''play_queue'')])
             else Some (Inr False, m2))
        \<and> writer m2 = writer m @ commandify m (''+VGR='' @ str_int rg) @ '';''
                         @ commandify m (''+VGT='' @ str_int tg) @ commandify m ''+VTR''"
    if "mode m = Some VOICE"
      "send m (Many [''+VGR='' @ str_int rg, ''+VGT='' @ str_int tg]) = Some (Inr r1, m1)"
      "send m1 (One ''+VTR'') = Some (Inr (Single r2), m2)"
    using start_voice_duplex_run [OF that] by simp
  have rs: "\<exists>r1 m1 r2 m2. send m (One (''+VGR='' @ str_int rg)) = Some (Inr r1, m1)
           \<and> send m1 (One ''+VRX'') = Some (Inr (Single r2), m2)
           \<and> b = (cr_result_code r2 = CONNECT)"
    if "mode m = Some VOICE" "start_voice_receive m wav d rg = Some (Inr b, m')"
    using start_voice_receive_sent [OF that(2,1)] .
  have ts: "\<exists>r1 m1 r2 m2. send m (One (''+VGT='' @ str_int tg)) = Some (Inr r1, m1)
           \<and> send m1 (One ''+VTX'') = Some (Inr (Single r2), m2)
           \<and> b = (cr_result_code r2 = CONNECT)"
    if "mode m = Some VOICE" "start_voice_transmit m d tg = Some (Inr b, m')"
    using start_voice_transmit_sent [OF that(2,1)] .
  have ds: "\<exists>r1 m1 r2 m2.
           send m (Many [''+VGR='' @ str_int rg, ''+VGT='' @ str_int tg]) = Some (Inr r1, m1)
           \<and> send m1 (One ''+VTR'') = Some (Inr (Single r2), m2)
           \<and> b = (cr_result_code r2 = CONNECT)"
    if "mode m = Some VOICE" "start_voice_duplex m wav d tg rg = Some (Inr b, m')"
    using start_voice_duplex_sent [OF that(2,1)] .
  from a old rx tx dx rs ts ds show ?thesis
    by (intro conjI impI) (blast | assumption)+
qed

theorem C2_start_voice_witness:
  "mode ((Modem_init ''xyz'')\<lparr>state := Some VOICE_RECEIVE, mode := Some DATA\<rparr>) \<noteq> Some VOICE
   \<and> start_voice_transmit ((Modem_init ''xyz'')\<lparr>state := Some VOICE_RECEIVE, mode := Some DATA\<rparr>) 120 128
       = Some (Inr False, (Modem_init ''xyz'')\<lparr>state := Some VOICE_RECEIVE, mode := Some DATA\<rparr>)
   \<and> mode ((Modem_init (''AT+VGT=128'' @ [CR, CR, LF] @ ''OK'' @ [CR, LF]
                         @ ''AT+VTX'' @ [CR, CR, LF] @ ''NO CARRIER'' @ [CR, LF]))
              \<lparr>state := Some VOICE_COMMAND, mode := Some VOICE\<rparr>) = Some VOICE
   \<and> send ((Modem_init (''AT+VGT=128'' @ [CR, CR, LF] @ ''OK'' @ [CR, LF]
                         @ ''AT+VTX'' @ [CR, CR, LF] @ ''NO CARRIER'' @ [CR, LF]))
              \<lparr>state := Some VOICE_COMMAND, mode := Some VOICE\<rparr>) (One (''+VGT='' @ str_int 128))
       = Some (Inr (Single \<lparr>cr_cmd = ''AT+VGT=128'', cr_data = None, cr_result_code = OK,
                           cr_raw = ''AT+VGT=128'' @ [CR, CR, LF] @ ''OK'' @ [CR, LF]\<rparr>),
               (Modem_init (''AT+VTX'' @ [CR, CR, LF] @ ''NO CARRIER'' @ [CR, LF]))
                 \<lparr>writer := ''AT+VGT=128'' @ [CR], state := Some VOICE_COMMAND, mode := Some VOICE\<rparr>)
   \<and> send ((Modem_init (''AT+VTX'' @ [CR, CR, LF] @ ''NO CARRIER'' @ [CR, LF]))
                 \<lparr>writer := ''AT+VGT=128'' @ [CR], state := Some VOICE_COMMAND, mode := Some VOICE\<rparr>)
            (One ''+VTX'')
       = Some (Inr (Single \<lparr>cr_cmd = ''AT+VTX'', cr_data = None, cr_result_code = NO_CARRIER,
                           cr_raw = ''AT+VTX'' @ [CR, CR, LF] @ ''NO CARRIER'' @ [CR, LF]\<rparr>),
               (Modem_init [])
                 \<lparr>writer := ''AT+VGT=128'' @ [CR] @ ''AT+VTX'' @ [CR], state := Some VOICE_COMMAND,
                   mode := Some VOICE\<rparr>)
   \<and> start_voice_transmit
        ((Modem_init (''AT+VGT=128'' @ [CR, CR, LF] @ ''OK'' @ [CR, LF]
                         @ ''AT+VTX'' @ [CR, CR, LF] @ ''NO CARRIER'' @ [CR, LF]))
              \<lparr>state := Some VOICE_COMMAND, mode := Some VOICE\<rparr>) 120 128
       = Some (Inr False,
               (Modem_init [])
                 \<lparr>writer := ''AT+VGT=128'' @ [CR] @ ''AT+VTX'' @ [CR], state := Some VOICE_COMMAND,
                   mode := Some VOICE\<rparr>)
   \<and> send ((Modem_init (''AT+VGR=121'' @ [CR, CR, LF] @ ''OK'' @ [CR, LF]
                         @ ''AT+VRX'' @ [CR, CR, LF] @ ''CONNECT'' @ [CR, LF]))
              \<lparr>state := Some VOICE_TRANSMIT, mode := Some VOICE\<rparr>) (One (''+VGR='' @ str_int 121))
       = Some (Inr (Single \<lparr>cr_cmd = ''AT+VGR=121'', cr_data = None, cr_result_code = OK,
                           cr_raw = ''AT+VGR=121'' @ [CR, CR, LF] @ ''OK'' @ [CR, LF]\<rparr>),
               (Modem_init (''AT+VRX'' @ [CR, CR, LF] @ ''CONNECT'' @ [CR, LF]))
                 \<lparr>writer := ''AT+VGR=121'' @ [CR], state := Some VOICE_TRANSMIT, mode := Some VOICE\<rparr>)
   \<and> send ((Modem_init (''AT+VRX'' @ [CR, CR, LF] @ ''CONNECT'' @ [CR, LF]))
                 \<lparr>writer := ''AT+VGR=121'' @ [CR], state := Some VOICE_TRANSMIT, mode := Some VOICE\<rparr>)
            (One ''+VRX'')
       = Some (Inr (Single \<lparr>cr_cmd = ''AT+VRX'', cr_data = None, cr_result_code = CONNECT,
                           cr_raw = ''AT+VRX'' @ [CR, CR, LF] @ ''CONNECT'' @ [CR, LF]\<rparr>),
               (Modem_init [])
                 \<lparr>writer := ''AT+VGR=121'' @ [CR] @ ''AT+VRX'' @ [CR], state := Some VOICE_TRANSMIT,
                   mode := Some VOICE\<rparr>)
   \<and> start_voice_receive
        ((Modem_init (''AT+VGR=121'' @ [CR, CR, LF] @ ''OK'' @ [CR, LF]
                         @ ''AT+VRX'' @ [CR, CR, LF] @ ''CONNECT'' @ [CR, LF]))
              \<lparr>state := Some VOICE_TRANSMIT, mode := Some VOICE\<rparr>) None 120 121
       = Some (Inr True,
               (Modem_init [])
                 \<lparr>writer := ''AT+VGR=121'' @ [CR] @ ''AT+VRX'' @ [CR], state := Some VOICE_RECEIVE,
                   background_tasks :=
                     [\<lparr>task_id = 0, task_coro = Coro_receive 120 None, task_name = ''RX''\<rparr>],
                   mode := Some VOICE, tasks_created := 1\<rparr>)"
proof -
  have h: "mode ((Modem_init ''xyz'')\<lparr>state := Some VOICE_RECEIVE, mode := Some DATA\<rparr>) \<noteq> Some VOICE"
    by simp
  note guard = C2_start_voice [where d = 120 and tg = 128, THEN conjunct1, rule_format, OF h]
  define m where "m = (Modem_init (''AT+VGT=128'' @ [CR, CR, LF] @ ''OK'' @ [CR, LF]
                         @ ''AT+VTX'' @ [CR, CR, LF] @ ''NO CARRIER'' @ [CR, LF]))
              \<lparr>state := Some VOICE_COMMAND, mode := Some VOICE\<rparr>"
  define m1 where "m1 = (Modem_init (''AT+VTX'' @ [CR, CR, LF] @ ''NO CARRIER'' @ [CR, LF]))
                 \<lparr>writer := ''AT+VGT=128'' @ [CR], state := Some VOICE_COMMAND, mode := Some VOICE\<rparr>"
  define m2 where "m2 = (Modem_init [])
                 \<lparr>writer := ''AT+VGT=128'' @ [CR] @ ''AT+VTX'' @ [CR], state := Some VOICE_COMMAND,
                   mode := Some VOICE\<rparr>"
  define r1 where "r1 = \<lparr>cr_cmd = ''AT+VGT=128'', cr_data = None, cr_result_code = OK,
                           cr_raw = ''AT+VGT=128'' @ [CR, CR, LF] @ ''OK'' @ [CR, LF]\<rparr>"
  define r2 where "r2 = \<lparr>cr_cmd = ''AT+VTX'', cr_data = None, cr_result_code = NO_CARRIER,
                           cr_raw = ''AT+VTX'' @ [CR, CR, LF] @ ''NO CARRIER'' @ [CR, LF]\<rparr>"
  have h1: "mode m = Some VOICE" by (simp add: m_def)
  have h2: "send m (One (''+VGT='' @ str_int 128)) = Some (Inr (Single r1), m1)"
    unfolding m_def m1_def r1_def by code_simp
  have h3: "send m1 (One ''+VTX'') = Some (Inr (Single r2), m2)"
    unfolding m1_def m2_def r2_def by code_simp
  have nc: "cr_result_code r2 \<noteq> CONNECT" by (simp add: r2_def)
  from C2_start_voice [where d = 120, THEN conjunct2, THEN conjunct2, THEN conjunct2,
      THEN conjunct2, THEN conjunct2, THEN conjunct2, THEN conjunct1, rule_format, OF h1 h2 h3] nc
  have run: "start_voice_transmit m 120 128 = Some (Inr False, m2)" by simp
  define n where "n = (Modem_init (''AT+VGR=121'' @ [CR, CR, LF] @ ''OK'' @ [CR, LF]
                         @ ''AT+VRX'' @ [CR, CR, LF] @ ''CONNECT'' @ [CR, LF]))
              \<lparr>state := Some VOICE_TRANSMIT, mode := Some VOICE\<rparr>"
  define n1 where "n1 = (Modem_init (''AT+VRX'' @ [CR, CR, LF] @ ''CONNECT'' @ [CR, LF]))
                 \<lparr>writer := ''AT+VGR=121'' @ [CR], state := Some VOICE_TRANSMIT, mode := Some VOICE\<rparr>"
  define n2 where "n2 = (Modem_init [])
                 \<lparr>writer := ''AT+VGR=121'' @ [CR] @ ''AT+VRX'' @ [CR], state := Some VOICE_TRANSMIT,
                   mode := Some VOICE\<rparr>"
  define n3 where "n3 = (Modem_init [])
                 \<lparr>writer := ''AT+VGR=121'' @ [CR] @ ''AT+VRX'' @ [CR], state := Some VOICE_RECEIVE,
                   background_tasks :=
                     [\<lparr>task_id = 0, task_coro = Coro_receive 120 None, task_name = ''RX''\<rparr>],
                   mode := Some VOICE, tasks_created := 1\<rparr>"
  define q1 where "q1 = \<lparr>cr_cmd = ''AT+VGR=121'', cr_data = None, cr_result_code = OK,
                           cr_raw = ''AT+VGR=121'' @ [CR, CR, LF] @ ''OK'' @ [CR, LF]\<rparr>"
  define q2 where "q2 = \<lparr>cr_cmd = ''AT+VRX'', cr_data = None, cr_result_code = CONNECT,
                           cr_raw = ''AT+VRX'' @ [CR, CR, LF] @ ''CONNECT'' @ [CR, LF]\<rparr>"
  have g1: "mode n = Some VOICE" by (simp add: n_def)
  have g2: "send n (One (''+VGR='' @ str_int 121)) = Some (Inr (Single q1), n1)"
    unfolding n_def n1_def q1_def by code_simp
  have g3: "send n1 (One ''+VRX'') = Some (Inr (Single q2), n2)"
    unfolding n1_def n2_def q2_def by code_simp
  have co: "cr_result_code q2 = CONNECT" by (simp add: q2_def)
  have ct: "create_tasks (n2\<lparr>state := Some VOICE_RECEIVE, stop_event := None\<rparr>)
              [(Coro_receive 120 None, ''RX'')] = n3"
    unfolding n2_def n3_def by code_simp
  from C2_start_voice [where d = 120 and wav = None, THEN conjunct2, THEN conjunct2,
      THEN conjunct2, THEN conjunct2, THEN conjunct2, THEN conjunct1, rule_format, OF g1 g2 g3]
    co ct
  have run2: "start_voice_receive n None 120 121 = Some (Inr True, n3)" by simp
  from guard h h1 h2 h3 run g2 g3 run2 show ?thesis
    unfolding m_def m1_def m2_def r1_def r2_def n_def n1_def n2_def n3_def q1_def q2_def by blast
qed

text \<open>
  C2, as stated, fails: in mode VOICE and state VOICE_RECEIVE, with a device that answers
  \<open>AT+VGT=128\<close> with OK and \<open>AT+VTX\<close> with CONNECT, \<open>start_voice_transmit\<close> returns \<open>True\<close>
  and the state becomes VOICE_TRANSMIT.
\<close>

theorem C2_counterexample:
  "state ((Modem_init (''AT+VGT=128'' @ [CR, CR, LF] @ ''OK'' @ [CR, LF]
                        @ ''AT+VTX'' @ [CR, CR, LF] @ ''CONNECT'' @ [CR, LF]))
            \<lparr>state := Some VOICE_RECEIVE, mode := Some VOICE\<rparr>) = Some VOICE_RECEIVE
   \<and> map_option (\<lambda>(r, m'). (r, state m'))
        (start_voice_transmit
           ((Modem_init (''AT+VGT=128'' @ [CR, CR, LF] @ ''OK'' @ [CR, LF]
                         @ ''AT+VTX'' @ [CR, CR, LF] @ ''CONNECT'' @ [CR, LF]))
              \<lparr>state := Some VOICE_RECEIVE, mode := Some VOICE\<rparr>)
           120 128)
      = Some (Inr True, Some VOICE_TRANSMIT)"
  by code_simp

subsection \<open>The stop reason\<close>


















subsection \<open>The DLE codec\<close>

lemma DLE_LF [simp]: "DLE \<noteq> LF" "LF \<noteq> DLE"
  by (simp_all add: DLE_def LF_def)

lemma catch_dsc_DLE: "catch_dsc m DLE = (Inr [DLE], m)"
  by (simp add: catch_dsc_def DLE_def Modem_BUSY_def in_range_def)

lemma re_sub_dle_plain:
  "c \<noteq> DLE \<Longrightarrow> re_sub_dle m (c # rest) = map_prod (map_sum id ((#) c)) id (re_sub_dle m rest)"
proof (cases rest)
  case Nil
  then show ?thesis by simp
next
  case (Cons code rest')
  assume "c \<noteq> DLE"
  with Cons show ?thesis
    by (cases "re_sub_dle m (code # rest')") (auto split: sum.splits)
qed

lemma re_sub_dle_LF:
  "re_sub_dle m (c # LF # rest) = map_prod (map_sum id ((#) c)) id (re_sub_dle m (LF # rest))"
  by (cases "re_sub_dle m (LF # rest)") (auto split: sum.splits)

lemma re_sub_dle_escaped:
  "re_sub_dle m (concat (map (\<lambda>c. if c = DLE then [DLE, DLE] else [c]) audio)) = (Inr audio, m)"
proof (induction audio)
  case Nil
  then show ?case by simp
next
  case (Cons a audio)
  show ?case
  proof (cases "a = DLE")
    case True
    with Cons show ?thesis
      by (simp add: catch_dsc_DLE)
  next
    case False
    with Cons show ?thesis
      by (simp add: re_sub_dle_plain)
  qed
qed

text \<open>
  C3. The decode step does not remove every pair of the escape byte and a payload byte:
  the pattern \<open>DLE + b"(.)"\<close> does not match a DLE followed by a line feed, so both bytes of
  that pair stay in the audio that is accumulated.
\<close>

theorem C3_dle_line_feed_not_removed:
  "re_sub_dle m [DLE, LF] = (Inr [DLE, LF], m)
   \<and> re_sub_dle m (''ab'' @ [DLE, LF] @ ''cd'') = (Inr (''ab'' @ [DLE, LF] @ ''cd''), m)
   \<and> receive_iteration m audio [DLE, LF] now start max_duration =
       (Inr (audio @ [DLE, LF]),
        check_stop (m\<lparr>silence_attr := rms_at_least [DLE, LF] 126\<rparr>) now start max_duration)"
proof -
  have 1: "re_sub_dle m [DLE, LF] = (Inr [DLE, LF], m)"
    by (simp add: re_sub_dle_LF)
  have 2: "re_sub_dle m (LF # ''cd'') = (Inr (LF # ''cd''), m)"
    by (simp add: re_sub_dle_plain DLE_def LF_def)
  have 3: "re_sub_dle m (''ab'' @ [DLE, LF] @ ''cd'') = (Inr (''ab'' @ [DLE, LF] @ ''cd''), m)"
    using 2 by (simp add: re_sub_dle_LF) (simp add: re_sub_dle_plain DLE_def)
  from 1 3 show ?thesis
    by (simp add: receive_iteration_def)
qed

subsection \<open>The event loop supervisor\<close>

text \<open>
  C8. When the event-loop task ends by raising, its done callbacks leave a new
  event-loop task in \<open>_event_loop\<close> and in the background tasks: one more task has been
  created, and it is not the task that ended. When the task ends by cancellation or by
  returning, no task is created: the callbacks only discard the ended task from the
  background tasks.
\<close>

theorem C8_event_loop_restart:
  "event_loop (event_loop_task_done m t (Raised err))
     = Some \<lparr>task_id = tasks_created m, task_coro = Coro_event_loop, task_name = ''event_loop''\<rparr>
   \<and> background_tasks (event_loop_task_done m t (Raised err))
     = filter (\<lambda>x. x \<noteq> t) (background_tasks m)
       @ [\<lparr>task_id = tasks_created m, task_coro = Coro_event_loop, task_name = ''event_loop''\<rparr>]
   \<and> tasks_created (event_loop_task_done m t (Raised err)) = Suc (tasks_created m)
   \<and> (task_id t < tasks_created m \<longrightarrow> event_loop (event_loop_task_done m t (Raised err)) \<noteq> Some t)
   \<and> event_loop_task_done m t Cancelled
     = m\<lparr>background_tasks := filter (\<lambda>x. x \<noteq> t) (background_tasks m)\<rparr>
   \<and> event_loop_task_done m t Returned
     = m\<lparr>background_tasks := filter (\<lambda>x. x \<noteq> t) (background_tasks m)\<rparr>
   \<and> tasks_created (event_loop_task_done m t Cancelled) = tasks_created m
   \<and> tasks_created (event_loop_task_done m t Returned) = tasks_created m"
  by (auto simp: event_loop_task_done_def event_loop_done_callback_def task_done_callback_def
      start_event_loop_def create_background_task_def Let_def)

theorem C8_event_loop_restart_witness:
  "event_loop (start_event_loop (Modem_init []))
     = Some \<lparr>task_id = 0, task_coro = Coro_event_loop, task_name = ''event_loop''\<rparr>
   \<and> task_id \<lparr>task_id = 0, task_coro = Coro_event_loop, task_name = ''event_loop''\<rparr>
       < tasks_created (start_event_loop (Modem_init []))
   \<and> event_loop (event_loop_task_done (start_event_loop (Modem_init []))
        \<lparr>task_id = 0, task_coro = Coro_event_loop, task_name = ''event_loop''\<rparr> (Raised AttributeError))
     = Some \<lparr>task_id = 1, task_coro = Coro_event_loop, task_name = ''event_loop''\<rparr>
   \<and> background_tasks (event_loop_task_done (start_event_loop (Modem_init []))
        \<lparr>task_id = 0, task_coro = Coro_event_loop, task_name = ''event_loop''\<rparr> (Raised AttributeError))
     = [\<lparr>task_id = 1, task_coro = Coro_event_loop, task_name = ''event_loop''\<rparr>]
   \<and> background_tasks (event_loop_task_done (start_event_loop (Modem_init []))
        \<lparr>task_id = 0, task_coro = Coro_event_loop, task_name = ''event_loop''\<rparr> Cancelled) = []"
proof -
  have s: "start_event_loop (Modem_init [])
    = (Modem_init [])\<lparr>event_loop := Some \<lparr>task_id = 0, task_coro = Coro_event_loop, task_name = ''event_loop''\<rparr>,
        background_tasks := [\<lparr>task_id = 0, task_coro = Coro_event_loop, task_name = ''event_loop''\<rparr>],
        tasks_created := 1\<rparr>"
    by (simp add: start_event_loop_def create_background_task_def Modem_init_def Let_def)
  have h: "task_id \<lparr>task_id = 0, task_coro = Coro_event_loop, task_name = ''event_loop''\<rparr>
       < tasks_created (start_event_loop (Modem_init []))"
    by (simp add: s)
  note r = C8_event_loop_restart [of "start_event_loop (Modem_init [])"
      "\<lparr>task_id = 0, task_coro = Coro_event_loop, task_name = ''event_loop''\<rparr>" AttributeError]
  from r h show ?thesis by (simp add: s)
qed

subsection \<open>WAV duration and silence\<close>

text \<open>
  C9. \<open>wav_duration\<close> returns \<open>nframes / framerate\<close> for every readable file with a
  non-zero frame rate, so 8000 frames at 8000 Hz last exactly 1.0 seconds; and the silence
  generator produces \<open>framerate\<close> bytes for each whole second asked for, 8000 bytes per
  second at the default rate, every byte being \<open>0x80\<close>.
\<close>

theorem C9_wav_duration_and_silence:
  "(0 < fr \<longrightarrow> wav_duration (WaveParams fr nf) = Inr (Some (real nf / real fr)))
   \<and> wav_duration (WaveParams 8000 8000) = Inr (Some 1)
   \<and> length (silence (real n) (real fr)) = n * fr
   \<and> length (silence 1 default_framerate) = 8000
   \<and> set (silence 1 default_framerate) = {CHR 0x80}"
proof -
  have trunc: "py_int (real n * real fr) = int (n * fr)"
    unfolding py_int_def by (simp flip: of_nat_mult)
  have len: "length (silence (real n) (real fr)) = n * fr"
    unfolding silence_def by (simp only: trunc length_replicate nat_int)
  have "silence 1 default_framerate = replicate 8000 (CHR 0x80)"
    unfolding silence_def default_framerate_def py_int_def by simp
  then show ?thesis
    using len by (simp add: wav_duration_def)
qed

theorem C9_wav_duration_and_silence_witness:
  "(0 < (8000::nat) \<and> wav_duration (WaveParams 8000 16000) = Inr (Some 2))
   \<and> length (silence 3 8000) = 24000"
  using C9_wav_duration_and_silence [of 8000 16000 3] by simp

end
